theory Spec2Isabelle
  imports Main
begin

section \<open>The board document of LibrePCB (core/project/board/board.cpp)\<close>

text \<open>
  The class \<open>Board\<close> owns the collections of board items, attaches and detaches them
  to its project, and rebuilds two derived artefacts: the fragments of the planes and
  the air wires. This theory embeds the methods of \<open>board.cpp\<close> and of
  \<open>cmdboardpolygonremove.cpp\<close> as functions on an explicit object store.

  Pointers are addresses (\<open>nat\<close>, with \<open>0\<close> the null pointer); every C++ class whose
  objects the board handles has a store of its own in the record \<open>world\<close>. A method
  takes the address \<open>this\<close> of the board and the world, and returns how it ended
  together with the world it left.
\<close>

subsection \<open>Basic types\<close>

type_synonym ptr = nat

definition nullptr :: ptr where
  "nullptr = 0"

text \<open>\<open>Uuid\<close> is ordered (it is the key type of \<open>QMap\<close>); the order is all that is used.\<close>

type_synonym Uuid = nat

type_synonym Point = "int \<times> int"

type_synonym Path = "Point list"

text \<open>
  \<open>LogicError\<close> and \<open>RuntimeError\<close> are the two exceptions \<open>board.cpp\<close> throws itself;
  \<open>OtherException\<close> stands for whatever else a collaborator throws. All of them derive
  from \<open>std::exception\<close>.
\<close>

datatype exn = LogicError | RuntimeError | OtherException nat

text \<open>
  How a call ends: it returns, it throws, or the process is stopped (a failing clean-up
  function of a scope guard).
\<close>

datatype 'a outcome = Returned 'a | Thrown exn | Aborted

text \<open>The calls into collaborators and the signals emitted, in the order they happen.\<close>

datatype call =
    AddToBoard ptr
  | RemoveFromBoard ptr
  | BuildFragments ptr
  | BuildAirWires ptr
  | MoveTo
  | EmitDeviceAdded ptr
  | EmitDeviceRemoved ptr
  | QCritical

subsection \<open>Qt containers\<close>

text \<open>
  \<open>QMap\<close>: an association list kept sorted by key; \<open>insert\<close> replaces the value of a key
  that is present. Iteration visits the values in key order.
\<close>

fun qmap_insert :: "'k::linorder \<Rightarrow> 'v \<Rightarrow> ('k \<times> 'v) list \<Rightarrow> ('k \<times> 'v) list" where
  "qmap_insert k v [] = [(k, v)]"
| "qmap_insert k v ((k', v') # m) =
     (if k < k' then (k, v) # (k', v') # m
      else if k = k' then (k, v) # m
      else (k', v') # qmap_insert k v m)"

definition qmap_value :: "('k \<times> 'v) list \<Rightarrow> 'k \<Rightarrow> 'v \<Rightarrow> 'v" where
  "qmap_value m k d = (case map_of m k of None \<Rightarrow> d | Some v \<Rightarrow> v)"

definition qmap_contains :: "('k \<times> 'v) list \<Rightarrow> 'k \<Rightarrow> bool" where
  "qmap_contains m k = (k \<in> set (map fst m))"

definition qmap_remove :: "'k \<Rightarrow> ('k \<times> 'v) list \<Rightarrow> ('k \<times> 'v) list" where
  "qmap_remove k m = filter (\<lambda>kv. fst kv \<noteq> k) m"

definition qmap_values :: "('k \<times> 'v) list \<Rightarrow> 'v list" where
  "qmap_values m = map snd m"

text \<open>
  \<open>QHash\<close> with unique keys: an association list; the iteration order of a hash is
  unspecified, here it is the order of the list. \<open>take\<close> removes the entry of a key.
\<close>

definition qhash_value :: "('k \<times> 'v) list \<Rightarrow> 'k \<Rightarrow> 'v option" where
  "qhash_value m k = map_of m k"

definition qhash_insert :: "'k \<Rightarrow> 'v \<Rightarrow> ('k \<times> 'v) list \<Rightarrow> ('k \<times> 'v) list" where
  "qhash_insert k v m =
     (if k \<in> set (map fst m) then map (\<lambda>kv. if fst kv = k then (k, v) else kv) m
      else (k, v) # m)"

fun qhash_take :: "'k \<Rightarrow> ('k \<times> 'v) list \<Rightarrow> ('k \<times> 'v) list" where
  "qhash_take k [] = []"
| "qhash_take k (kv # m) = (if fst kv = k then m else kv # qhash_take k m)"

definition qhash_keys :: "('k \<times> 'v) list \<Rightarrow> 'k list" where
  "qhash_keys m = map fst m"

text \<open>
  \<open>QMultiHash\<close>: the most recently inserted entry of a key comes first; \<open>take\<close> removes
  that entry and returns its value, or returns the default value (the null pointer)
  when the key has no entry.
\<close>

definition qmultihash_insertMulti :: "'k \<Rightarrow> 'v \<Rightarrow> ('k \<times> 'v) list \<Rightarrow> ('k \<times> 'v) list" where
  "qmultihash_insertMulti k v m = (k, v) # m"

fun qmultihash_take :: "'k \<Rightarrow> ('k \<times> ptr) list \<Rightarrow> ptr \<times> ('k \<times> ptr) list" where
  "qmultihash_take k [] = (nullptr, [])"
| "qmultihash_take k (kv # m) =
     (if fst kv = k then (snd kv, m)
      else (fst (qmultihash_take k m), kv # snd (qmultihash_take k m)))"

text \<open>
  \<open>QSet\<close>: a list without repetitions, in the (unspecified) iteration order of the set.
\<close>

definition qset_insert :: "'a \<Rightarrow> 'a list \<Rightarrow> 'a list" where
  "qset_insert x s = (if x \<in> set s then s else s @ [x])"

definition qset_unite :: "'a list \<Rightarrow> 'a list \<Rightarrow> 'a list" where
  "qset_unite s xs = foldl (\<lambda>acc x. qset_insert x acc) s xs"

text \<open>\<open>QList::removeOne\<close> removes the first occurrence and is \<^const>\<open>remove1\<close>.\<close>

subsection \<open>The objects the board refers to\<close>

text \<open>
  The geometry classes \<open>Polygon\<close>, \<open>StrokeText\<close>, \<open>Hole\<close> and \<open>Via\<close> are an identifier
  and attributes the board never looks into.
\<close>

record Geometry =
  geo_uuid :: Uuid
  geo_attributes :: nat

record BI_FootprintPad =
  pad_libPadUuid :: Uuid

record BI_StrokeText =
  st_board :: ptr
  st_text :: Geometry

record BI_Device =
  dev_board :: ptr
  dev_componentInstanceUuid :: Uuid
  dev_libDeviceUuid :: Uuid
  dev_libFootprintUuid :: Uuid
  dev_position :: Point
  dev_rotation :: int
  dev_mirrored :: bool
  dev_attributes :: "(string \<times> string) list"
  dev_pads :: "ptr list"
  dev_strokeTexts :: "ptr list"

record BI_Via =
  via_netSegment :: ptr
  via_via :: Geometry

record BI_NetPoint =
  np_netSegment :: ptr
  np_position :: Point

record BI_NetLine =
  nl_netSegment :: ptr
  nl_startPoint :: ptr
  nl_endPoint :: ptr
  nl_layer :: string
  nl_width :: nat

record BI_NetSegment =
  ns_board :: ptr
  ns_uuid :: Uuid
  ns_netSignal :: ptr
  ns_vias :: "ptr list"
  ns_netPoints :: "ptr list"
  ns_netLines :: "ptr list"

record BI_Plane =
  pl_board :: ptr
  pl_uuid :: Uuid
  pl_layerName :: string
  pl_netSignal :: ptr
  pl_outline :: Path
  pl_minWidth :: nat
  pl_minClearance :: nat
  pl_keepOrphans :: bool
  pl_priority :: int
  pl_connectStyle :: nat
  pl_visible :: bool
  pl_fragments :: "Path list"

record BI_Polygon =
  pg_board :: ptr
  pg_polygon :: Geometry

record BI_Hole =
  hole_board :: ptr
  hole_hole :: Geometry

record BI_AirWire =
  aw_board :: ptr
  aw_netSignal :: ptr
  aw_p1 :: Point
  aw_p2 :: Point

text \<open>A component instance of the circuit, as far as the board reads it.\<close>

record ComponentInstance =
  ci_uuid :: Uuid
  ci_name :: string
  ci_isSchematicOnly :: bool

text \<open>
  An ERC message. Its key is the text \<open>"%1/%2"\<close> of the board's and the component's
  identifiers, kept here as the pair.
\<close>

record ErcMsg =
  erc_owner :: ptr
  erc_ownerKey :: "Uuid \<times> Uuid"
  erc_msgKey :: string
  erc_description :: string
  erc_visible :: bool

record TransactionalDirectory =
  dir_fileSystem :: ptr
  dir_path :: string

subsection \<open>The board and the world\<close>

record Board =
  mDirectoryName :: string
  mDirectory :: TransactionalDirectory
  mIsAddedToProject :: bool
  mUuid :: Uuid
  mName :: string
  mDefaultFontFileName :: string
  mLayerStack :: "string list"
  mGridProperties :: nat
  mDesignRules :: nat
  mFabricationOutputSettings :: nat
  mDeviceInstances :: "(Uuid \<times> ptr) list"
  mNetSegments :: "ptr list"
  mPlanes :: "ptr list"
  mPolygons :: "ptr list"
  mStrokeTexts :: "ptr list"
  mHoles :: "ptr list"
  mAirWires :: "(ptr \<times> ptr) list"
  mScheduledNetSignalsForAirWireRebuild :: "ptr list"
  mErcMsgListUnplacedComponentInstances :: "(Uuid \<times> ErcMsg) list"

text \<open>
  The world: the boards, the stores of the item classes, the circuit and the directory
  of the project, the allocator (\<open>last_ptr\<close> is the highest address \<open>new\<close> has
  handed out, \<open>last_uuid\<close> the last identifier of \<open>Uuid::createRandom\<close>) and the log
  of calls.
\<close>

record world =
  boards :: "ptr \<Rightarrow> Board"
  devices :: "ptr \<Rightarrow> BI_Device"
  pads :: "ptr \<Rightarrow> BI_FootprintPad"
  netsegments :: "ptr \<Rightarrow> BI_NetSegment"
  vias :: "ptr \<Rightarrow> BI_Via"
  netpoints :: "ptr \<Rightarrow> BI_NetPoint"
  netlines :: "ptr \<Rightarrow> BI_NetLine"
  planes :: "ptr \<Rightarrow> BI_Plane"
  polygons :: "ptr \<Rightarrow> BI_Polygon"
  stroketexts :: "ptr \<Rightarrow> BI_StrokeText"
  holes :: "ptr \<Rightarrow> BI_Hole"
  airwires :: "ptr \<Rightarrow> BI_AirWire"
  netsignal_isAddedToCircuit :: "ptr \<Rightarrow> bool"
  circuit_componentInstances :: "(Uuid \<times> ComponentInstance) list"
  circuit_netSignals :: "(Uuid \<times> ptr) list"
  project_directory :: TransactionalDirectory
  last_ptr :: ptr
  last_uuid :: Uuid
  calls :: "call list"

text \<open>
  The collaborators whose code is outside \<open>board.cpp\<close>: whether the attach and detach
  side effect of an item throws, the two builders, and the move of the directory.
\<close>

record env =
  addToBoard_throws :: "ptr \<Rightarrow> exn option"
  removeFromBoard_throws :: "ptr \<Rightarrow> exn option"
  buildFragments :: "world \<Rightarrow> ptr \<Rightarrow> Path list"
  buildAirWires :: "world \<Rightarrow> ptr \<Rightarrow> ptr \<Rightarrow> exn + (Point \<times> Point) list"
  moveTo_throws :: "TransactionalDirectory \<Rightarrow> TransactionalDirectory \<Rightarrow> exn option"

definition updBoard :: "ptr \<Rightarrow> (Board \<Rightarrow> Board) \<Rightarrow> world \<Rightarrow> world" where
  "updBoard this f w = w\<lparr>boards := (boards w)(this := f (boards w this))\<rparr>"

definition logCall :: "call \<Rightarrow> world \<Rightarrow> world" where
  "logCall c w = w\<lparr>calls := calls w @ [c]\<rparr>"

text \<open>\<open>BI_Base::addToBoard\<close> and \<open>BI_Base::removeFromBoard\<close> of the item at an address.\<close>

definition item_addToBoard :: "env \<Rightarrow> ptr \<Rightarrow> world \<Rightarrow> unit outcome \<times> world" where
  "item_addToBoard env item w =
     (case addToBoard_throws env item of
        None \<Rightarrow> (Returned (), logCall (AddToBoard item) w)
      | Some e \<Rightarrow> (Thrown e, logCall (AddToBoard item) w))"

definition item_removeFromBoard :: "env \<Rightarrow> ptr \<Rightarrow> world \<Rightarrow> unit outcome \<times> world" where
  "item_removeFromBoard env item w =
     (case removeFromBoard_throws env item of
        None \<Rightarrow> (Returned (), logCall (RemoveFromBoard item) w)
      | Some e \<Rightarrow> (Thrown e, logCall (RemoveFromBoard item) w))"

subsection \<open>Getters\<close>

definition isEmpty :: "Board \<Rightarrow> bool" where
  "isEmpty b \<longleftrightarrow>
     mDeviceInstances b = [] \<and> mNetSegments b = [] \<and> mPlanes b = [] \<and>
     mPolygons b = [] \<and> mStrokeTexts b = [] \<and> mHoles b = []"

definition getAllItems :: "Board \<Rightarrow> ptr list" where
  "getAllItems b =
     qmap_values (mDeviceInstances b) @ mNetSegments b @ mPlanes b @ mPolygons b @
     mStrokeTexts b @ mHoles b @ map snd (mAirWires b)"

subsection \<open>The ERC messages of unplaced components\<close>

definition newErcMsg :: "ptr \<Rightarrow> Board \<Rightarrow> ComponentInstance \<Rightarrow> ErcMsg" where
  "newErcMsg this b component =
     \<lparr>erc_owner = this,
      erc_ownerKey = (mUuid b, ci_uuid component),
      erc_msgKey = ''UnplacedComponent'',
      erc_description =
        ''Unplaced Component: '' @ ci_name component @ '' (Board: '' @ mName b @ '')'',
      erc_visible = False\<rparr>"

text \<open>
  The first loop of \<open>updateErcMessages\<close>, over the component instances of the circuit:
  a message is created for a component that has neither a device nor a message, and
  deleted for one that has both.
\<close>

fun updateErcMessages_components :: "ptr \<Rightarrow> ComponentInstance list \<Rightarrow> Board \<Rightarrow> Board" where
  "updateErcMessages_components this [] b = b"
| "updateErcMessages_components this (component # cs) b =
     (if ci_isSchematicOnly component then updateErcMessages_components this cs b
      else
        let device = qmap_value (mDeviceInstances b) (ci_uuid component) nullptr;
            ercMsg = qhash_value (mErcMsgListUnplacedComponentInstances b) (ci_uuid component)
        in if device = nullptr \<and> ercMsg = None then
             updateErcMessages_components this cs
               (b\<lparr>mErcMsgListUnplacedComponentInstances :=
                    qhash_insert (ci_uuid component)
                      ((newErcMsg this b component)\<lparr>erc_visible := True\<rparr>)
                      (mErcMsgListUnplacedComponentInstances b)\<rparr>)
           else if device \<noteq> nullptr \<and> ercMsg \<noteq> None then
             updateErcMessages_components this cs
               (b\<lparr>mErcMsgListUnplacedComponentInstances :=
                    qhash_take (ci_uuid component) (mErcMsgListUnplacedComponentInstances b)\<rparr>)
           else updateErcMessages_components this cs b)"

text \<open>
  The second loop, over a copy of the keys of the messages: the message of a key that
  is not a component instance of the circuit is deleted.
\<close>

fun updateErcMessages_keys ::
  "(Uuid \<times> ComponentInstance) list \<Rightarrow> Uuid list \<Rightarrow> Board \<Rightarrow> Board" where
  "updateErcMessages_keys componentInstances [] b = b"
| "updateErcMessages_keys componentInstances (uuid # uuids) b =
     (if \<not> qmap_contains componentInstances uuid then
        updateErcMessages_keys componentInstances uuids
          (b\<lparr>mErcMsgListUnplacedComponentInstances :=
               qhash_take uuid (mErcMsgListUnplacedComponentInstances b)\<rparr>)
      else updateErcMessages_keys componentInstances uuids b)"

definition updateErcMessages :: "ptr \<Rightarrow> world \<Rightarrow> world" where
  "updateErcMessages this w =
     (let b = boards w this in
      if mIsAddedToProject b then
        let componentInstances = circuit_componentInstances w;
            b1 = updateErcMessages_components this (qmap_values componentInstances) b;
            b2 = updateErcMessages_keys componentInstances
                   (qhash_keys (mErcMsgListUnplacedComponentInstances b1)) b1
        in updBoard this (\<lambda>_. b2) w
      else updBoard this (\<lambda>b. b\<lparr>mErcMsgListUnplacedComponentInstances := []\<rparr>) w)"

subsection \<open>Device instances\<close>

definition getDeviceInstanceByComponentUuid :: "Board \<Rightarrow> Uuid \<Rightarrow> ptr" where
  "getDeviceInstanceByComponentUuid b uuid = qmap_value (mDeviceInstances b) uuid nullptr"

text \<open>
  \<open>instance.getComponentInstance().getUuid()\<close> and \<open>instance.getComponentInstanceUuid()\<close>
  read the same identifier, the field \<open>dev_componentInstanceUuid\<close>.
\<close>

definition addDeviceInstance :: "env \<Rightarrow> ptr \<Rightarrow> ptr \<Rightarrow> world \<Rightarrow> unit outcome \<times> world" where
  "addDeviceInstance env this inst w =
     (if dev_board (devices w inst) \<noteq> this then (Thrown LogicError, w)
      else if getDeviceInstanceByComponentUuid (boards w this)
                (dev_componentInstanceUuid (devices w inst)) \<noteq> nullptr
      then (Thrown RuntimeError, w)
      else
        case (if mIsAddedToProject (boards w this) then item_addToBoard env inst w
              else (Returned (), w)) of
          (Returned _, w1) \<Rightarrow>
            (Returned (),
             logCall (EmitDeviceAdded inst)
               (updateErcMessages this
                 (updBoard this
                    (\<lambda>b. b\<lparr>mDeviceInstances :=
                         qmap_insert (dev_componentInstanceUuid (devices w1 inst)) inst
                           (mDeviceInstances b)\<rparr>) w1)))
        | (r, w1) \<Rightarrow> (r, w1))"

definition removeDeviceInstance :: "env \<Rightarrow> ptr \<Rightarrow> ptr \<Rightarrow> world \<Rightarrow> unit outcome \<times> world" where
  "removeDeviceInstance env this inst w =
     (if \<not> qmap_contains (mDeviceInstances (boards w this))
             (dev_componentInstanceUuid (devices w inst))
      then (Thrown LogicError, w)
      else
        case (if mIsAddedToProject (boards w this) then item_removeFromBoard env inst w
              else (Returned (), w)) of
          (Returned _, w1) \<Rightarrow>
            (Returned (),
             logCall (EmitDeviceRemoved inst)
               (updateErcMessages this
                 (updBoard this
                    (\<lambda>b. b\<lparr>mDeviceInstances :=
                         qmap_remove (dev_componentInstanceUuid (devices w1 inst))
                           (mDeviceInstances b)\<rparr>) w1)))
        | (r, w1) \<Rightarrow> (r, w1))"

subsection \<open>Net segments\<close>

fun getNetSegmentByUuid :: "world \<Rightarrow> ptr list \<Rightarrow> Uuid \<Rightarrow> ptr" where
  "getNetSegmentByUuid w [] uuid = nullptr"
| "getNetSegmentByUuid w (netsegment # rest) uuid =
     (if ns_uuid (netsegments w netsegment) = uuid then netsegment
      else getNetSegmentByUuid w rest uuid)"

definition addNetSegment :: "env \<Rightarrow> ptr \<Rightarrow> ptr \<Rightarrow> world \<Rightarrow> unit outcome \<times> world" where
  "addNetSegment env this netsegment w =
     (if netsegment \<in> set (mNetSegments (boards w this)) \<or>
         ns_board (netsegments w netsegment) \<noteq> this
      then (Thrown LogicError, w)
      else if getNetSegmentByUuid w (mNetSegments (boards w this))
                (ns_uuid (netsegments w netsegment)) \<noteq> nullptr
      then (Thrown RuntimeError, w)
      else
        case (if mIsAddedToProject (boards w this) then item_addToBoard env netsegment w
              else (Returned (), w)) of
          (Returned _, w1) \<Rightarrow>
            (Returned (),
             updBoard this (\<lambda>b. b\<lparr>mNetSegments := mNetSegments b @ [netsegment]\<rparr>) w1)
        | (r, w1) \<Rightarrow> (r, w1))"

definition removeNetSegment :: "env \<Rightarrow> ptr \<Rightarrow> ptr \<Rightarrow> world \<Rightarrow> unit outcome \<times> world" where
  "removeNetSegment env this netsegment w =
     (if netsegment \<notin> set (mNetSegments (boards w this)) then (Thrown LogicError, w)
      else
        case (if mIsAddedToProject (boards w this) then item_removeFromBoard env netsegment w
              else (Returned (), w)) of
          (Returned _, w1) \<Rightarrow>
            (Returned (),
             updBoard this (\<lambda>b. b\<lparr>mNetSegments := remove1 netsegment (mNetSegments b)\<rparr>) w1)
        | (r, w1) \<Rightarrow> (r, w1))"

subsection \<open>Planes\<close>

fun getPlaneByUuid :: "world \<Rightarrow> ptr list \<Rightarrow> Uuid \<Rightarrow> ptr" where
  "getPlaneByUuid w [] uuid = nullptr"
| "getPlaneByUuid w (plane # rest) uuid =
     (if pl_uuid (planes w plane) = uuid then plane else getPlaneByUuid w rest uuid)"

definition addPlane :: "env \<Rightarrow> ptr \<Rightarrow> ptr \<Rightarrow> world \<Rightarrow> unit outcome \<times> world" where
  "addPlane env this plane w =
     (if plane \<in> set (mPlanes (boards w this)) \<or> pl_board (planes w plane) \<noteq> this
      then (Thrown LogicError, w)
      else
        case (if mIsAddedToProject (boards w this) then item_addToBoard env plane w
              else (Returned (), w)) of
          (Returned _, w1) \<Rightarrow>
            (Returned (), updBoard this (\<lambda>b. b\<lparr>mPlanes := mPlanes b @ [plane]\<rparr>) w1)
        | (r, w1) \<Rightarrow> (r, w1))"

definition removePlane :: "env \<Rightarrow> ptr \<Rightarrow> ptr \<Rightarrow> world \<Rightarrow> unit outcome \<times> world" where
  "removePlane env this plane w =
     (if plane \<notin> set (mPlanes (boards w this)) then (Thrown LogicError, w)
      else
        case (if mIsAddedToProject (boards w this) then item_removeFromBoard env plane w
              else (Returned (), w)) of
          (Returned _, w1) \<Rightarrow>
            (Returned (), updBoard this (\<lambda>b. b\<lparr>mPlanes := remove1 plane (mPlanes b)\<rparr>) w1)
        | (r, w1) \<Rightarrow> (r, w1))"

subsection \<open>Polygons\<close>

definition addPolygon :: "env \<Rightarrow> ptr \<Rightarrow> ptr \<Rightarrow> world \<Rightarrow> unit outcome \<times> world" where
  "addPolygon env this polygon w =
     (if polygon \<in> set (mPolygons (boards w this)) \<or> pg_board (polygons w polygon) \<noteq> this
      then (Thrown LogicError, w)
      else
        case (if mIsAddedToProject (boards w this) then item_addToBoard env polygon w
              else (Returned (), w)) of
          (Returned _, w1) \<Rightarrow>
            (Returned (), updBoard this (\<lambda>b. b\<lparr>mPolygons := mPolygons b @ [polygon]\<rparr>) w1)
        | (r, w1) \<Rightarrow> (r, w1))"

definition removePolygon :: "env \<Rightarrow> ptr \<Rightarrow> ptr \<Rightarrow> world \<Rightarrow> unit outcome \<times> world" where
  "removePolygon env this polygon w =
     (if polygon \<notin> set (mPolygons (boards w this)) then (Thrown LogicError, w)
      else
        case (if mIsAddedToProject (boards w this) then item_removeFromBoard env polygon w
              else (Returned (), w)) of
          (Returned _, w1) \<Rightarrow>
            (Returned (),
             updBoard this (\<lambda>b. b\<lparr>mPolygons := remove1 polygon (mPolygons b)\<rparr>) w1)
        | (r, w1) \<Rightarrow> (r, w1))"

subsection \<open>Stroke texts\<close>

definition addStrokeText :: "env \<Rightarrow> ptr \<Rightarrow> ptr \<Rightarrow> world \<Rightarrow> unit outcome \<times> world" where
  "addStrokeText env this text w =
     (if text \<in> set (mStrokeTexts (boards w this)) \<or> st_board (stroketexts w text) \<noteq> this
      then (Thrown LogicError, w)
      else
        case (if mIsAddedToProject (boards w this) then item_addToBoard env text w
              else (Returned (), w)) of
          (Returned _, w1) \<Rightarrow>
            (Returned (), updBoard this (\<lambda>b. b\<lparr>mStrokeTexts := mStrokeTexts b @ [text]\<rparr>) w1)
        | (r, w1) \<Rightarrow> (r, w1))"

definition removeStrokeText :: "env \<Rightarrow> ptr \<Rightarrow> ptr \<Rightarrow> world \<Rightarrow> unit outcome \<times> world" where
  "removeStrokeText env this text w =
     (if text \<notin> set (mStrokeTexts (boards w this)) then (Thrown LogicError, w)
      else
        case (if mIsAddedToProject (boards w this) then item_removeFromBoard env text w
              else (Returned (), w)) of
          (Returned _, w1) \<Rightarrow>
            (Returned (),
             updBoard this (\<lambda>b. b\<lparr>mStrokeTexts := remove1 text (mStrokeTexts b)\<rparr>) w1)
        | (r, w1) \<Rightarrow> (r, w1))"

subsection \<open>Holes\<close>

definition addHole :: "env \<Rightarrow> ptr \<Rightarrow> ptr \<Rightarrow> world \<Rightarrow> unit outcome \<times> world" where
  "addHole env this hole w =
     (if hole \<in> set (mHoles (boards w this)) \<or> hole_board (holes w hole) \<noteq> this
      then (Thrown LogicError, w)
      else
        case (if mIsAddedToProject (boards w this) then item_addToBoard env hole w
              else (Returned (), w)) of
          (Returned _, w1) \<Rightarrow>
            (Returned (), updBoard this (\<lambda>b. b\<lparr>mHoles := mHoles b @ [hole]\<rparr>) w1)
        | (r, w1) \<Rightarrow> (r, w1))"

definition removeHole :: "env \<Rightarrow> ptr \<Rightarrow> ptr \<Rightarrow> world \<Rightarrow> unit outcome \<times> world" where
  "removeHole env this hole w =
     (if hole \<notin> set (mHoles (boards w this)) then (Thrown LogicError, w)
      else
        case (if mIsAddedToProject (boards w this) then item_removeFromBoard env hole w
              else (Returned (), w)) of
          (Returned _, w1) \<Rightarrow>
            (Returned (), updBoard this (\<lambda>b. b\<lparr>mHoles := remove1 hole (mHoles b)\<rparr>) w1)
        | (r, w1) \<Rightarrow> (r, w1))"

subsection \<open>Rebuilding the planes\<close>

text \<open>
  Modelled from the spec: \<open>BI_Plane::operator<\<close> is declared in \<open>bi_plane.h\<close>, which is
  not among the sources. A plane is less than another of higher priority; between planes
  of equal priority the order is the planes' own, the parameter \<open>tieLess\<close>.
\<close>

definition plane_less :: "(ptr \<Rightarrow> ptr \<Rightarrow> bool) \<Rightarrow> world \<Rightarrow> ptr \<Rightarrow> ptr \<Rightarrow> bool" where
  "plane_less tieLess w p1 p2 \<longleftrightarrow>
     pl_priority (planes w p1) < pl_priority (planes w p2) \<or>
     (pl_priority (planes w p1) = pl_priority (planes w p2) \<and> tieLess p1 p2)"

text \<open>
  \<open>std::sort\<close> with a comparison function \<open>before\<close>, as an insertion sort: an
  element is put in front of the first element it compares \<open>before\<close> to. (\<open>std::sort\<close> leaves open the order of
  elements that compare equivalent.)
\<close>

fun insert_by :: "('a \<Rightarrow> 'a \<Rightarrow> bool) \<Rightarrow> 'a \<Rightarrow> 'a list \<Rightarrow> 'a list" where
  "insert_by before x [] = [x]"
| "insert_by before x (y # ys) =
     (if before x y then x # y # ys else y # insert_by before x ys)"

definition std_sort :: "('a \<Rightarrow> 'a \<Rightarrow> bool) \<Rightarrow> 'a list \<Rightarrow> 'a list" where
  "std_sort before xs = foldr (insert_by before) xs []"

definition setCalculatedFragments :: "ptr \<Rightarrow> Path list \<Rightarrow> world \<Rightarrow> world" where
  "setCalculatedFragments plane fragments w =
     w\<lparr>planes := (planes w)(plane := (planes w plane)\<lparr>pl_fragments := fragments\<rparr>)\<rparr>"

definition rebuildPlane :: "env \<Rightarrow> ptr \<Rightarrow> world \<Rightarrow> world" where
  "rebuildPlane env plane w =
     setCalculatedFragments plane (buildFragments env w plane) (logCall (BuildFragments plane) w)"

fun rebuildPlanes :: "env \<Rightarrow> ptr list \<Rightarrow> world \<Rightarrow> world" where
  "rebuildPlanes env [] w = w"
| "rebuildPlanes env (plane # rest) w = rebuildPlanes env rest (rebuildPlane env plane w)"

definition sortedPlanes :: "(ptr \<Rightarrow> ptr \<Rightarrow> bool) \<Rightarrow> ptr \<Rightarrow> world \<Rightarrow> ptr list" where
  "sortedPlanes tieLess this w =
     std_sort (\<lambda>p1 p2. \<not> plane_less tieLess w p1 p2) (mPlanes (boards w this))"

definition rebuildAllPlanes :: "env \<Rightarrow> (ptr \<Rightarrow> ptr \<Rightarrow> bool) \<Rightarrow> ptr \<Rightarrow> world \<Rightarrow> world" where
  "rebuildAllPlanes env tieLess this w = rebuildPlanes env (sortedPlanes tieLess this w) w"

subsection \<open>Rebuilding the air wires\<close>

text \<open>\<open>new\<close>: the next address; it is never the null pointer.\<close>

definition new_ptr :: "world \<Rightarrow> ptr" where
  "new_ptr w = Suc (last_ptr w)"

definition allocated :: "world \<Rightarrow> world" where
  "allocated w = w\<lparr>last_ptr := Suc (last_ptr w)\<rparr>"

text \<open>
  The loop \<open>while (BI_AirWire* airWire = mAirWires.take(netsignal))\<close>: the entry is out of
  the hash before the air wire is detached, also when detaching throws.
\<close>

function removeOldAirWires :: "env \<Rightarrow> ptr \<Rightarrow> ptr \<Rightarrow> world \<Rightarrow> unit outcome \<times> world" where
  "removeOldAirWires env this netsignal w =
     (let taken = qmultihash_take netsignal (mAirWires (boards w this));
          airWire = fst taken;
          w1 = updBoard this (\<lambda>b. b\<lparr>mAirWires := snd taken\<rparr>) w
      in if airWire = nullptr then (Returned (), w1)
         else if removeFromBoard_throws env airWire = None
         then removeOldAirWires env this netsignal (snd (item_removeFromBoard env airWire w1))
         else item_removeFromBoard env airWire w1)"
  by pat_completeness auto

termination removeOldAirWires
proof (relation "measure (\<lambda>(env, this, netsignal, w). length (mAirWires (boards w this)))",
    goal_cases)
  case 1
  show ?case by simp
next
  case (2 env this netsignal w taken airWire w1)
  have shorter: "fst (qmultihash_take k m) \<noteq> nullptr \<Longrightarrow>
      length (snd (qmultihash_take k m)) < length m" for k :: ptr and m
    by (induction m) (auto simp: nullptr_def)
  from 2 shorter [of netsignal "mAirWires (boards w this)"] show ?case
    by (simp add: item_removeFromBoard_def logCall_def updBoard_def)
qed

declare removeOldAirWires.simps [simp del]

text \<open>
  The loop over the pairs of points the builder returned: a new air wire is attached
  and then entered into the hash; when attaching throws, the scoped pointer deletes it.
\<close>

fun addNewAirWires ::
  "env \<Rightarrow> ptr \<Rightarrow> ptr \<Rightarrow> (Point \<times> Point) list \<Rightarrow> world \<Rightarrow> unit outcome \<times> world" where
  "addNewAirWires env this netsignal [] w = (Returned (), w)"
| "addNewAirWires env this netsignal (points # rest) w =
     (let airWire = new_ptr w;
          w1 = (allocated w)\<lparr>airwires := (airwires w)(airWire :=
                 \<lparr>aw_board = this, aw_netSignal = netsignal,
                  aw_p1 = fst points, aw_p2 = snd points\<rparr>)\<rparr>
      in case item_addToBoard env airWire w1 of
           (Returned _, w2) \<Rightarrow>
             addNewAirWires env this netsignal rest
               (updBoard this
                  (\<lambda>b. b\<lparr>mAirWires := qmultihash_insertMulti netsignal airWire (mAirWires b)\<rparr>)
                  w2)
         | (r, w2) \<Rightarrow> (r, w2))"

text \<open>The body of the loop over the scheduled net signals.\<close>

definition rebuildAirWiresOf :: "env \<Rightarrow> ptr \<Rightarrow> ptr \<Rightarrow> world \<Rightarrow> unit outcome \<times> world" where
  "rebuildAirWiresOf env this netsignal w =
     (case removeOldAirWires env this netsignal w of
        (Returned _, w1) \<Rightarrow>
          if netsignal \<noteq> nullptr \<and> netsignal_isAddedToCircuit w1 netsignal then
            case buildAirWires env w1 this netsignal of
              Inl e \<Rightarrow> (Thrown e, logCall (BuildAirWires netsignal) w1)
            | Inr pairs \<Rightarrow>
                addNewAirWires env this netsignal pairs
                  (logCall (BuildAirWires netsignal) w1)
          else (Returned (), w1)
      | (r, w1) \<Rightarrow> (r, w1))"

fun rebuildAirWiresLoop :: "env \<Rightarrow> ptr \<Rightarrow> ptr list \<Rightarrow> world \<Rightarrow> unit outcome \<times> world" where
  "rebuildAirWiresLoop env this [] w = (Returned (), w)"
| "rebuildAirWiresLoop env this (netsignal # rest) w =
     (case rebuildAirWiresOf env this netsignal w of
        (Returned _, w1) \<Rightarrow> rebuildAirWiresLoop env this rest w1
      | (r, w1) \<Rightarrow> (r, w1))"

text \<open>
  \<open>triggerAirWiresRebuild\<close> is \<open>noexcept\<close>: what the loop throws is caught and reported
  with \<open>qCritical\<close>; the scheduled set is cleared inside the \<open>try\<close> block, after the loop.
\<close>

definition triggerAirWiresRebuild :: "env \<Rightarrow> ptr \<Rightarrow> world \<Rightarrow> world" where
  "triggerAirWiresRebuild env this w =
     (if \<not> mIsAddedToProject (boards w this) then w
      else
        case rebuildAirWiresLoop env this
               (mScheduledNetSignalsForAirWireRebuild (boards w this)) w of
          (Returned _, w1) \<Rightarrow>
            updBoard this (\<lambda>b. b\<lparr>mScheduledNetSignalsForAirWireRebuild := []\<rparr>) w1
        | (r, w1) \<Rightarrow> logCall QCritical w1)"

definition forceAirWiresRebuild :: "env \<Rightarrow> ptr \<Rightarrow> world \<Rightarrow> world" where
  "forceAirWiresRebuild env this w =
     triggerAirWiresRebuild env this
       (updBoard this
          (\<lambda>b. b\<lparr>mScheduledNetSignalsForAirWireRebuild :=
               qset_unite
                 (qset_unite (mScheduledNetSignalsForAirWireRebuild b)
                    (qmap_values (circuit_netSignals w)))
                 (qhash_keys (mAirWires b))\<rparr>) w)"

subsection \<open>Attaching the board to the project\<close>

text \<open>
  Modelled from the spec: \<open>ScopeGuardList\<close> (\<open>utils/scopeguardlist.h\<close>) is not among the
  sources. Unless it was dismissed, it runs its clean-up functions when the scope is
  left, the last one added first; a clean-up function that fails is not handled, the
  process stops. The clean-up functions of \<open>addToProject\<close> each detach one item, so the
  list is kept as the list of these items.
\<close>

fun runScopeGuards :: "env \<Rightarrow> ptr list \<Rightarrow> world \<Rightarrow> unit outcome \<times> world" where
  "runScopeGuards env [] w = (Returned (), w)"
| "runScopeGuards env (item # rest) w =
     (case item_removeFromBoard env item w of
        (Returned _, w1) \<Rightarrow> runScopeGuards env rest w1
      | (r, w1) \<Rightarrow> (Aborted, w1))"

definition unwindScopeGuards :: "env \<Rightarrow> exn \<Rightarrow> ptr list \<Rightarrow> world \<Rightarrow> unit outcome \<times> world" where
  "unwindScopeGuards env e sgl w =
     (case runScopeGuards env (rev sgl) w of
        (Returned _, w1) \<Rightarrow> (Thrown e, w1)
      | (r, w1) \<Rightarrow> (Aborted, w1))"

text \<open>The loop that attaches the items; \<open>sgl\<close> is the scope guard list so far.\<close>

fun addItemsToBoard ::
  "env \<Rightarrow> ptr list \<Rightarrow> ptr list \<Rightarrow> world \<Rightarrow> unit outcome \<times> ptr list \<times> world" where
  "addItemsToBoard env [] sgl w = (Returned (), sgl, w)"
| "addItemsToBoard env (item # rest) sgl w =
     (case item_addToBoard env item w of
        (Returned _, w1) \<Rightarrow> addItemsToBoard env rest (sgl @ [item]) w1
      | (r, w1) \<Rightarrow> (r, sgl, w1))"

text \<open>
  The move of the directory into the project: the destination is the directory
  \<open>boards/<name>\<close> of the project.
\<close>

definition moveDirectory :: "env \<Rightarrow> ptr \<Rightarrow> world \<Rightarrow> unit outcome \<times> world" where
  "moveDirectory env this w =
     (if dir_fileSystem (mDirectory (boards w this)) \<noteq> dir_fileSystem (project_directory w)
      then
        let dst = \<lparr>dir_fileSystem = dir_fileSystem (project_directory w),
                   dir_path = dir_path (project_directory w) @ ''boards/'' @
                              mDirectoryName (boards w this)\<rparr>
        in case moveTo_throws env (mDirectory (boards w this)) dst of
             Some e \<Rightarrow> (Thrown e, logCall MoveTo w)
           | None \<Rightarrow>
               (Returned (), updBoard this (\<lambda>b. b\<lparr>mDirectory := dst\<rparr>) (logCall MoveTo w))
      else (Returned (), w))"

definition addToProject :: "env \<Rightarrow> ptr \<Rightarrow> world \<Rightarrow> unit outcome \<times> world" where
  "addToProject env this w =
     (if mIsAddedToProject (boards w this) then (Thrown LogicError, w)
      else
        case addItemsToBoard env (getAllItems (boards w this)) [] w of
          (Returned _, sgl, w1) \<Rightarrow>
            (case moveDirectory env this w1 of
               (Returned _, w2) \<Rightarrow>
                 (Returned (),
                  updateErcMessages this
                    (forceAirWiresRebuild env this
                       (updBoard this (\<lambda>b. b\<lparr>mIsAddedToProject := True\<rparr>) w2)))
             | (Thrown e, w2) \<Rightarrow> unwindScopeGuards env e sgl w2
             | (Aborted, w2) \<Rightarrow> (Aborted, w2))
        | (Thrown e, sgl, w1) \<Rightarrow> unwindScopeGuards env e sgl w1
        | (Aborted, sgl, w1) \<Rightarrow> (Aborted, w1))"

subsection \<open>The command that removes a polygon (cmdboardpolygonremove.cpp)\<close>

record CmdBoardPolygonRemove =
  mBoard :: ptr
  mPolygon :: ptr

text \<open>The constructor: the board is the one the polygon refers to.\<close>

definition newCmdBoardPolygonRemove :: "world \<Rightarrow> ptr \<Rightarrow> CmdBoardPolygonRemove" where
  "newCmdBoardPolygonRemove w polygon =
     \<lparr>mBoard = pg_board (polygons w polygon), mPolygon = polygon\<rparr>"

definition performRedo :: "env \<Rightarrow> CmdBoardPolygonRemove \<Rightarrow> world \<Rightarrow> unit outcome \<times> world" where
  "performRedo env cmd w = removePolygon env (mBoard cmd) (mPolygon cmd) w"

definition performUndo :: "env \<Rightarrow> CmdBoardPolygonRemove \<Rightarrow> world \<Rightarrow> unit outcome \<times> world" where
  "performUndo env cmd w = addPolygon env (mBoard cmd) (mPolygon cmd) w"

definition performExecute :: "env \<Rightarrow> CmdBoardPolygonRemove \<Rightarrow> world \<Rightarrow> bool outcome \<times> world" where
  "performExecute env cmd w =
     (case performRedo env cmd w of
        (Returned _, w1) \<Rightarrow> (Returned True, w1)
      | (Thrown e, w1) \<Rightarrow> (Thrown e, w1)
      | (Aborted, w1) \<Rightarrow> (Aborted, w1))"

subsection \<open>Copying another board\<close>




















subsection \<open>A new board in an empty world\<close>

text \<open>
  The board the constructor leaves for \<open>create = true\<close>: no items, not added to the
  project, its directory on a file system of its own.
\<close>

definition emptyBoard :: Board where
  "emptyBoard =
     \<lparr>mDirectoryName = ''default'',
      mDirectory = \<lparr>dir_fileSystem = 2, dir_path = []\<rparr>,
      mIsAddedToProject = False,
      mUuid = 1,
      mName = ''default'',
      mDefaultFontFileName = ''newstroke.bene'',
      mLayerStack = [''top_cu'', ''bot_cu'', ''brd_outlines''],
      mGridProperties = 0,
      mDesignRules = 0,
      mFabricationOutputSettings = 0,
      mDeviceInstances = [],
      mNetSegments = [],
      mPlanes = [],
      mPolygons = [],
      mStrokeTexts = [],
      mHoles = [],
      mAirWires = [],
      mScheduledNetSignalsForAirWireRebuild = [],
      mErcMsgListUnplacedComponentInstances = []\<rparr>"

definition noGeometry :: Geometry where
  "noGeometry = \<lparr>geo_uuid = 0, geo_attributes = 0\<rparr>"

definition noPlane :: BI_Plane where
  "noPlane =
     \<lparr>pl_board = 0, pl_uuid = 0, pl_layerName = [], pl_netSignal = 0, pl_outline = [],
      pl_minWidth = 0, pl_minClearance = 0, pl_keepOrphans = False, pl_priority = 0,
      pl_connectStyle = 0, pl_visible = False, pl_fragments = []\<rparr>"

definition noDevice :: BI_Device where
  "noDevice =
     \<lparr>dev_board = 0, dev_componentInstanceUuid = 0, dev_libDeviceUuid = 0,
      dev_libFootprintUuid = 0, dev_position = (0, 0), dev_rotation = 0,
      dev_mirrored = False, dev_attributes = [], dev_pads = [], dev_strokeTexts = []\<rparr>"

text \<open>
  A world that holds empty boards only and no item; the addresses up to 99 are taken to
  be in use, so that the examples can place their objects there.
\<close>

definition emptyWorld :: world where
  "emptyWorld =
     \<lparr>boards = (\<lambda>_. emptyBoard),
      devices = (\<lambda>_. noDevice),
      pads = (\<lambda>_. \<lparr>pad_libPadUuid = 0\<rparr>),
      netsegments = (\<lambda>_. \<lparr>ns_board = 0, ns_uuid = 0, ns_netSignal = 0, ns_vias = [],
                           ns_netPoints = [], ns_netLines = []\<rparr>),
      vias = (\<lambda>_. \<lparr>via_netSegment = 0, via_via = noGeometry\<rparr>),
      netpoints = (\<lambda>_. \<lparr>np_netSegment = 0, np_position = (0, 0)\<rparr>),
      netlines = (\<lambda>_. \<lparr>nl_netSegment = 0, nl_startPoint = 0, nl_endPoint = 0,
                        nl_layer = [], nl_width = 0\<rparr>),
      planes = (\<lambda>_. noPlane),
      polygons = (\<lambda>_. \<lparr>pg_board = 0, pg_polygon = noGeometry\<rparr>),
      stroketexts = (\<lambda>_. \<lparr>st_board = 0, st_text = noGeometry\<rparr>),
      holes = (\<lambda>_. \<lparr>hole_board = 0, hole_hole = noGeometry\<rparr>),
      airwires = (\<lambda>_. \<lparr>aw_board = 0, aw_netSignal = 0, aw_p1 = (0, 0), aw_p2 = (0, 0)\<rparr>),
      netsignal_isAddedToCircuit = (\<lambda>_. False),
      circuit_componentInstances = [],
      circuit_netSignals = [],
      project_directory = \<lparr>dir_fileSystem = 1, dir_path = []\<rparr>,
      last_ptr = 99,
      last_uuid = 99,
      calls = []\<rparr>"

text \<open>Collaborators that never throw and build nothing.\<close>

definition quietEnv :: env where
  "quietEnv =
     \<lparr>addToBoard_throws = (\<lambda>_. None),
      removeFromBoard_throws = (\<lambda>_. None),
      buildFragments = (\<lambda>_ _. []),
      buildAirWires = (\<lambda>_ _ _. Inr []),
      moveTo_throws = (\<lambda>_ _. None)\<rparr>"

subsection \<open>Example worlds\<close>

text \<open>
  Board 1 holds the device 10 of the component instance 5; the circuit has the net
  signal 7, for which the builder of \<open>airEnv\<close> returns one air wire.
\<close>

definition airWorld :: world where
  "airWorld = emptyWorld\<lparr>
     boards := (boards emptyWorld)(1 := emptyBoard\<lparr>mDeviceInstances := [(5, 10)]\<rparr>),
     devices := (devices emptyWorld)
       (10 := noDevice\<lparr>dev_board := 1, dev_componentInstanceUuid := 5\<rparr>),
     netsignal_isAddedToCircuit := (\<lambda>n. n = 7),
     circuit_netSignals := [(3, 7)]\<rparr>"

definition airEnv :: env where
  "airEnv = quietEnv\<lparr>buildAirWires := (\<lambda>_ _ _. Inr [((0, 0), (1, 1))])\<rparr>"

text \<open>The board after it was added to the project and its only device was removed.\<close>

definition staleAirWiresBoard :: Board where
  "staleAirWiresBoard =
     boards (snd (removeDeviceInstance airEnv 1 10 (snd (addToProject airEnv 1 airWorld)))) 1"

text \<open>
  The entries of the map of devices are consistent when each maps the component
  instance of a device to that device.
\<close>

definition deviceKeysConsistent :: "world \<Rightarrow> Board \<Rightarrow> bool" where
  "deviceKeysConsistent w b \<longleftrightarrow>
     (\<forall>kv \<in> set (mDeviceInstances b).
        snd kv \<noteq> nullptr \<and> dev_componentInstanceUuid (devices w (snd kv)) = fst kv)"

text \<open>
  Board 1 with one item of each kind (addresses 10 to 15), and a second object of each
  kind (addresses 20 to 25) made for board 1 with the identifier of the first.
\<close>

definition fullWorld :: world where
  "fullWorld = emptyWorld\<lparr>
     boards := (boards emptyWorld)(1 := emptyBoard\<lparr>
        mDeviceInstances := [(5, 10)], mNetSegments := [11], mPlanes := [12],
        mPolygons := [13], mStrokeTexts := [14], mHoles := [15]\<rparr>),
     devices := (devices emptyWorld)
       (10 := noDevice\<lparr>dev_board := 1, dev_componentInstanceUuid := 5\<rparr>,
        20 := noDevice\<lparr>dev_board := 1, dev_componentInstanceUuid := 5\<rparr>),
     netsegments := (netsegments emptyWorld)
       (11 := (netsegments emptyWorld 0)\<lparr>ns_board := 1, ns_uuid := 6\<rparr>,
        21 := (netsegments emptyWorld 0)\<lparr>ns_board := 1, ns_uuid := 6\<rparr>),
     planes := (planes emptyWorld)
       (12 := noPlane\<lparr>pl_board := 1, pl_uuid := 7\<rparr>,
        22 := noPlane\<lparr>pl_board := 1, pl_uuid := 7\<rparr>),
     polygons := (polygons emptyWorld)
       (13 := \<lparr>pg_board = 1, pg_polygon = noGeometry\<lparr>geo_uuid := 8\<rparr>\<rparr>,
        23 := \<lparr>pg_board = 1, pg_polygon = noGeometry\<lparr>geo_uuid := 8\<rparr>\<rparr>),
     stroketexts := (stroketexts emptyWorld)
       (14 := \<lparr>st_board = 1, st_text = noGeometry\<lparr>geo_uuid := 9\<rparr>\<rparr>,
        24 := \<lparr>st_board = 1, st_text = noGeometry\<lparr>geo_uuid := 9\<rparr>\<rparr>),
     holes := (holes emptyWorld)
       (15 := \<lparr>hole_board = 1, hole_hole = noGeometry\<lparr>geo_uuid := 10\<rparr>\<rparr>,
        25 := \<lparr>hole_board = 1, hole_hole = noGeometry\<lparr>geo_uuid := 10\<rparr>\<rparr>)\<rparr>"

text \<open>The same world with board 1 added to the project.\<close>

definition fullWorldAdded :: world where
  "fullWorldAdded = updBoard 1 (\<lambda>b. b\<lparr>mIsAddedToProject := True\<rparr>) fullWorld"

text \<open>Collaborators of which every detach side effect throws.\<close>

definition detachFailsEnv :: env where
  "detachFailsEnv = quietEnv\<lparr>removeFromBoard_throws := (\<lambda>_. Some (OtherException 1))\<rparr>"

text \<open>
  Board 1 of \<open>airWorld\<close> added to the project, with the net signal 7 scheduled for the
  rebuild of its air wires; and collaborators whose air wire builder throws.
\<close>

definition pendingWorld :: world where
  "pendingWorld =
     updBoard 1 (\<lambda>b. b\<lparr>mIsAddedToProject := True,
                        mScheduledNetSignalsForAirWireRebuild := [7]\<rparr>) airWorld"

definition buildFailsEnv :: env where
  "buildFailsEnv = quietEnv\<lparr>buildAirWires := (\<lambda>_ _ _. Inl (OtherException 2))\<rparr>"

text \<open>
  Two worlds differ in the air wires only when every board is the same in both up to
  its field \<open>mAirWires\<close>.
\<close>

definition sameButAirWires :: "world \<Rightarrow> world \<Rightarrow> bool" where
  "sameButAirWires w w' \<longleftrightarrow>
     (\<forall>b. (boards w' b)\<lparr>mAirWires := []\<rparr> = (boards w b)\<lparr>mAirWires := []\<rparr>)"

text \<open>Collaborators of which the attach side effect of the item 12 throws.\<close>

definition attachFailsEnv :: env where
  "attachFailsEnv =
     quietEnv\<lparr>addToBoard_throws := (\<lambda>p. if p = 12 then Some (OtherException 3) else None)\<rparr>"

text \<open>
  The component instances of the circuit are a \<open>QMap\<close> from the identifier of a component
  instance to that instance: no key occurs twice, and a key is the identifier of its
  value.
\<close>

definition circuitKeysConsistent :: "world \<Rightarrow> bool" where
  "circuitKeysConsistent w \<longleftrightarrow>
     distinct (map fst (circuit_componentInstances w)) \<and>
     (\<forall>kv \<in> set (circuit_componentInstances w). ci_uuid (snd kv) = fst kv)"

text \<open>
  The ERC messages of a board are consistent when no key occurs twice (they are a
  \<open>QHash\<close>), every message is visible, and no message is registered for a component
  instance of the circuit that exists in schematics only. \<open>updateErcMessages\<close> is the one
  place where messages are registered; it keeps this (\<open>updateErcMessages_consistent\<close>).
\<close>

definition ercMessagesConsistent :: "world \<Rightarrow> Board \<Rightarrow> bool" where
  "ercMessagesConsistent w b \<longleftrightarrow>
     distinct (map fst (mErcMsgListUnplacedComponentInstances b)) \<and>
     (\<forall>kv \<in> set (mErcMsgListUnplacedComponentInstances b). erc_visible (snd kv)) \<and>
     (\<forall>kv \<in> set (mErcMsgListUnplacedComponentInstances b).
        \<forall>c \<in> set (qmap_values (circuit_componentInstances w)).
          ci_uuid c = fst kv \<longrightarrow> \<not> ci_isSchematicOnly c)"

text \<open>
  Board 1 is added to the project and holds the device 10 of the component instance 5;
  the circuit has the component instances 4 (no device), 5 (placed, with a message left
  over) and 6 (in schematics only).
\<close>

definition ercWorld :: world where
  "ercWorld = emptyWorld\<lparr>
     boards := (boards emptyWorld)(1 := emptyBoard\<lparr>
        mIsAddedToProject := True,
        mDeviceInstances := [(5, 10)],
        mErcMsgListUnplacedComponentInstances :=
          [(5, \<lparr>erc_owner = 1, erc_ownerKey = (1, 5), erc_msgKey = ''UnplacedComponent'',
                 erc_description = ''Unplaced Component: R2 (Board: default)'',
                 erc_visible = True\<rparr>)]\<rparr>),
     devices := (devices emptyWorld)
       (10 := noDevice\<lparr>dev_board := 1, dev_componentInstanceUuid := 5\<rparr>),
     circuit_componentInstances :=
       [(4, \<lparr>ci_uuid = 4, ci_name = ''R1'', ci_isSchematicOnly = False\<rparr>),
        (5, \<lparr>ci_uuid = 5, ci_name = ''R2'', ci_isSchematicOnly = False\<rparr>),
        (6, \<lparr>ci_uuid = 6, ci_name = ''GND'', ci_isSchematicOnly = True\<rparr>)]\<rparr>"

text \<open>
  Board 1 with the planes 30, 31 and 32, of the priorities 5, 1 and 3; and a builder
  whose fragments for a plane are one path that records the priority of the plane and
  the number of calls logged before.
\<close>

definition planesWorld :: world where
  "planesWorld = emptyWorld\<lparr>
     boards := (boards emptyWorld)(1 := emptyBoard\<lparr>mPlanes := [30, 31, 32]\<rparr>),
     planes := (planes emptyWorld)
       (30 := noPlane\<lparr>pl_board := 1, pl_uuid := 7, pl_priority := 5\<rparr>,
        31 := noPlane\<lparr>pl_board := 1, pl_uuid := 8, pl_priority := 1\<rparr>,
        32 := noPlane\<lparr>pl_board := 1, pl_uuid := 9, pl_priority := 3\<rparr>)\<rparr>"

definition planesEnv :: env where
  "planesEnv = quietEnv\<lparr>buildFragments :=
     (\<lambda>w plane. [[(pl_priority (planes w plane), int (length (calls w)))]])\<rparr>"




text \<open>
  The calls logged between two states, and the calls that a rebuild of the air wires of
  the net signals \<open>ns\<close> may log: air wires are attached and detached, and the builder is
  called for a net signal of \<open>ns\<close>. \<open>airWireCallsOnly ns w w'\<close> holds when the log of \<open>w'\<close>
  is the log of \<open>w\<close> followed by such calls only.
\<close>

definition newCalls :: "world \<Rightarrow> world \<Rightarrow> call list" where
  "newCalls w w' = drop (length (calls w)) (calls w')"

fun airWireCall :: "ptr list \<Rightarrow> call \<Rightarrow> bool" where
  "airWireCall ns (AddToBoard p) = True"
| "airWireCall ns (RemoveFromBoard p) = True"
| "airWireCall ns (BuildAirWires n) = (n \<in> set ns)"
| "airWireCall ns (BuildFragments p) = False"
| "airWireCall ns MoveTo = False"
| "airWireCall ns (EmitDeviceAdded p) = False"
| "airWireCall ns (EmitDeviceRemoved p) = False"
| "airWireCall ns QCritical = False"

definition airWireCallsOnly :: "ptr list \<Rightarrow> world \<Rightarrow> world \<Rightarrow> bool" where
  "airWireCallsOnly ns w w' \<longleftrightarrow>
     take (length (calls w)) (calls w') = calls w \<and>
     list_all (airWireCall ns) (newCalls w w')"

text \<open>
  Board 1 of \<open>airWorld\<close> added to the project, with the net signals 7 and 8 of the circuit
  scheduled; and collaborators whose air wire builder throws for the net signal 7 and
  returns one air wire for any other.
\<close>

definition pendingTwoWorld :: world where
  "pendingTwoWorld =
     updBoard 1 (\<lambda>b. b\<lparr>mIsAddedToProject := True,
                        mScheduledNetSignalsForAirWireRebuild := [7, 8]\<rparr>)
       (airWorld\<lparr>netsignal_isAddedToCircuit := (\<lambda>n. n = 7 \<or> n = 8),
                 circuit_netSignals := [(3, 7), (4, 8)]\<rparr>)"

definition buildFailsOnceEnv :: env where
  "buildFailsOnceEnv =
     quietEnv\<lparr>buildAirWires :=
       (\<lambda>_ _ n. if n = 7 then Inl (OtherException 2) else Inr [((0, 0), (1, 1))])\<rparr>"

text \<open>
  The ERC messages of a board are keyed when each is owned by the board, has the key of
  the board and of the component instance it is registered for, and is of the kind
  \<open>UnplacedComponent\<close>. \<open>updateErcMessages\<close>, the one place where messages are registered,
  keeps this (\<open>updateErcMessages_keyed\<close>).
\<close>

definition ercMessagesKeyed :: "ptr \<Rightarrow> Board \<Rightarrow> bool" where
  "ercMessagesKeyed this b \<longleftrightarrow>
     (\<forall>kv \<in> set (mErcMsgListUnplacedComponentInstances b).
        erc_owner (snd kv) = this \<and>
        erc_ownerKey (snd kv) = (mUuid b, fst kv) \<and>
        erc_msgKey (snd kv) = ''UnplacedComponent'')"

section \<open>Properties\<close>

subsection \<open>Emptiness\<close>

text \<open>
  Claim C5, as amended: \<open>isEmpty\<close> holds if and only if the six stored collections
  (device instances, net segments, planes, polygons, stroke texts, holes) are empty,
  that is, if and only if \<open>getAllItems\<close> returns nothing but air wires. The air wires
  are not looked at.
\<close>

theorem isEmpty_iff_stored_collections_empty:
  "(isEmpty b \<longleftrightarrow>
      mDeviceInstances b = [] \<and> mNetSegments b = [] \<and> mPlanes b = [] \<and>
      mPolygons b = [] \<and> mStrokeTexts b = [] \<and> mHoles b = []) \<and>
   (isEmpty b \<longleftrightarrow> getAllItems b = map snd (mAirWires b))"
proof -
  let ?stored = "qmap_values (mDeviceInstances b) @ mNetSegments b @ mPlanes b @
    mPolygons b @ mStrokeTexts b @ mHoles b"
  have "getAllItems b = ?stored @ map snd (mAirWires b)"
    by (simp add: getAllItems_def)
  then have "getAllItems b = map snd (mAirWires b) \<longleftrightarrow> ?stored = []"
    by (metis append_self_conv2)
  then show ?thesis
    by (auto simp: isEmpty_def qmap_values_def)
qed

lemma staleAirWiresBoard_eq:
  "staleAirWiresBoard = emptyBoard\<lparr>
     mDirectory := \<lparr>dir_fileSystem = 1, dir_path = ''boards/default''\<rparr>,
     mIsAddedToProject := True, mAirWires := [(7, 100)]\<rparr>"
  by code_simp

text \<open>
  Claim C5 as stated fails: after board 1 of \<open>airWorld\<close> was added to the project and its
  device removed, \<open>isEmpty\<close> holds although the air wire built on attaching is still there.
\<close>

theorem isEmpty_airwires_counterexample:
  "\<not> (isEmpty staleAirWiresBoard \<longleftrightarrow>
      mDeviceInstances staleAirWiresBoard = [] \<and> mNetSegments staleAirWiresBoard = [] \<and>
      mPlanes staleAirWiresBoard = [] \<and> mPolygons staleAirWiresBoard = [] \<and>
      mStrokeTexts staleAirWiresBoard = [] \<and> mHoles staleAirWiresBoard = [] \<and>
      mAirWires staleAirWiresBoard = [])"
  by (simp add: staleAirWiresBoard_eq isEmpty_def emptyBoard_def)

subsection \<open>Adding an item whose key is taken\<close>

lemma map_of_first:
  "(k, v) \<in> set m \<Longrightarrow> \<exists>v'. map_of m k = Some v' \<and> (k, v') \<in> set m"
  by (induction m) auto

lemma getDeviceInstance_found:
  assumes "deviceKeysConsistent w b" "d' \<in> set (qmap_values (mDeviceInstances b))"
  shows "getDeviceInstanceByComponentUuid b (dev_componentInstanceUuid (devices w d')) \<noteq> nullptr"
proof -
  from assms obtain k where kd: "(k, d') \<in> set (mDeviceInstances b)"
    by (auto simp: qmap_values_def)
  with assms(1) have k: "dev_componentInstanceUuid (devices w d') = k"
    by (auto simp: deviceKeysConsistent_def)
  from map_of_first [OF kd] obtain v' where
    v': "map_of (mDeviceInstances b) k = Some v'" "(k, v') \<in> set (mDeviceInstances b)"
    by blast
  with assms(1) have "v' \<noteq> nullptr"
    by (auto simp: deviceKeysConsistent_def)
  with v' k show ?thesis
    by (simp add: getDeviceInstanceByComponentUuid_def qmap_value_def)
qed

lemma getNetSegment_found:
  "s' \<in> set xs \<Longrightarrow> nullptr \<notin> set xs \<Longrightarrow>
   getNetSegmentByUuid w xs (ns_uuid (netsegments w s')) \<noteq> nullptr"
  by (induction xs) auto

text \<open>
  Claim C2, as amended. A device \<open>d\<close> made for this board whose component instance is
  that of a member \<open>d'\<close>, and a net segment \<open>s\<close> made for this board that is not a member
  and has the identifier of a member \<open>s'\<close>, are rejected with \<open>RuntimeError\<close>
  (DuplicateEntity), and the world is left as it was. The other four kinds compare no
  identifiers: what is rejected is an instance that is a member already, as for net
  segments, with \<open>LogicError\<close> (InvariantViolation), the world left as it was.
\<close>

theorem add_duplicate_rejected:
  "(dev_board (devices w d) = this \<and> deviceKeysConsistent w (boards w this) \<and>
    d' \<in> set (qmap_values (mDeviceInstances (boards w this))) \<and>
    dev_componentInstanceUuid (devices w d') = dev_componentInstanceUuid (devices w d) \<longrightarrow>
      addDeviceInstance env this d w = (Thrown RuntimeError, w)) \<and>
   (ns_board (netsegments w s) = this \<and> s \<notin> set (mNetSegments (boards w this)) \<and>
    nullptr \<notin> set (mNetSegments (boards w this)) \<and>
    s' \<in> set (mNetSegments (boards w this)) \<and>
    ns_uuid (netsegments w s') = ns_uuid (netsegments w s) \<longrightarrow>
      addNetSegment env this s w = (Thrown RuntimeError, w)) \<and>
   (s' \<in> set (mNetSegments (boards w this)) \<longrightarrow>
      addNetSegment env this s' w = (Thrown LogicError, w)) \<and>
   (p \<in> set (mPlanes (boards w this)) \<longrightarrow>
      addPlane env this p w = (Thrown LogicError, w)) \<and>
   (q \<in> set (mPolygons (boards w this)) \<longrightarrow>
      addPolygon env this q w = (Thrown LogicError, w)) \<and>
   (t \<in> set (mStrokeTexts (boards w this)) \<longrightarrow>
      addStrokeText env this t w = (Thrown LogicError, w)) \<and>
   (h \<in> set (mHoles (boards w this)) \<longrightarrow>
      addHole env this h w = (Thrown LogicError, w))"
proof (intro conjI impI)
  assume a: "dev_board (devices w d) = this \<and> deviceKeysConsistent w (boards w this) \<and>
    d' \<in> set (qmap_values (mDeviceInstances (boards w this))) \<and>
    dev_componentInstanceUuid (devices w d') = dev_componentInstanceUuid (devices w d)"
  then have "getDeviceInstanceByComponentUuid (boards w this)
      (dev_componentInstanceUuid (devices w d)) \<noteq> nullptr"
    using getDeviceInstance_found [of w "boards w this" d'] by simp
  with a show "addDeviceInstance env this d w = (Thrown RuntimeError, w)"
    by (simp add: addDeviceInstance_def)
next
  assume a: "ns_board (netsegments w s) = this \<and> s \<notin> set (mNetSegments (boards w this)) \<and>
    nullptr \<notin> set (mNetSegments (boards w this)) \<and>
    s' \<in> set (mNetSegments (boards w this)) \<and>
    ns_uuid (netsegments w s') = ns_uuid (netsegments w s)"
  then have "getNetSegmentByUuid w (mNetSegments (boards w this))
      (ns_uuid (netsegments w s)) \<noteq> nullptr"
    using getNetSegment_found [of s' "mNetSegments (boards w this)" w] by simp
  with a show "addNetSegment env this s w = (Thrown RuntimeError, w)"
    by (simp add: addNetSegment_def)
qed (simp_all add: addNetSegment_def addPlane_def addPolygon_def addStrokeText_def addHole_def)

theorem add_duplicate_rejected_witness:
  "addDeviceInstance quietEnv 1 20 fullWorld = (Thrown RuntimeError, fullWorld) \<and>
   addNetSegment quietEnv 1 21 fullWorld = (Thrown RuntimeError, fullWorld) \<and>
   addNetSegment quietEnv 1 11 fullWorld = (Thrown LogicError, fullWorld) \<and>
   addPlane quietEnv 1 12 fullWorld = (Thrown LogicError, fullWorld) \<and>
   addPolygon quietEnv 1 13 fullWorld = (Thrown LogicError, fullWorld) \<and>
   addStrokeText quietEnv 1 14 fullWorld = (Thrown LogicError, fullWorld) \<and>
   addHole quietEnv 1 15 fullWorld = (Thrown LogicError, fullWorld)"
proof -
  have h1: "dev_board (devices fullWorld 20) = 1 \<and>
    deviceKeysConsistent fullWorld (boards fullWorld 1) \<and>
    10 \<in> set (qmap_values (mDeviceInstances (boards fullWorld 1))) \<and>
    dev_componentInstanceUuid (devices fullWorld 10) =
      dev_componentInstanceUuid (devices fullWorld 20)"
    by (simp add: fullWorld_def emptyWorld_def emptyBoard_def deviceKeysConsistent_def
        qmap_values_def noDevice_def nullptr_def)
  have h2: "ns_board (netsegments fullWorld 21) = 1 \<and>
    21 \<notin> set (mNetSegments (boards fullWorld 1)) \<and>
    nullptr \<notin> set (mNetSegments (boards fullWorld 1)) \<and>
    11 \<in> set (mNetSegments (boards fullWorld 1)) \<and>
    ns_uuid (netsegments fullWorld 11) = ns_uuid (netsegments fullWorld 21)"
    by (simp add: fullWorld_def emptyWorld_def emptyBoard_def nullptr_def)
  have h3: "11 \<in> set (mNetSegments (boards fullWorld 1))"
    "12 \<in> set (mPlanes (boards fullWorld 1))"
    "13 \<in> set (mPolygons (boards fullWorld 1))"
    "14 \<in> set (mStrokeTexts (boards fullWorld 1))"
    "15 \<in> set (mHoles (boards fullWorld 1))"
    by (simp_all add: fullWorld_def emptyWorld_def emptyBoard_def)
  show ?thesis
    using add_duplicate_rejected [of fullWorld 20 1 10 quietEnv 21 11 12 13 14 15] h1 h2 h3
    by blast
qed

text \<open>
  Claim C2 as stated fails for planes: plane 22 has the identifier of plane 12, a member
  of board 1, and \<open>addPlane\<close> returns and appends it.
\<close>

theorem addPlane_duplicate_uuid_counterexample:
  "pl_uuid (planes fullWorld 22) = pl_uuid (planes fullWorld 12) \<and>
   12 \<in> set (mPlanes (boards fullWorld 1)) \<and>
   fst (addPlane quietEnv 1 22 fullWorld) = Returned () \<and>
   mPlanes (boards (snd (addPlane quietEnv 1 22 fullWorld)) 1) = [12, 22]"
  by (simp add: addPlane_def fullWorld_def emptyWorld_def emptyBoard_def noPlane_def
      updBoard_def)

subsection \<open>Removing an item whose detach side effect fails\<close>

text \<open>
  Claim C10: on a board that is added to the project, each of the six remove operations,
  applied to a member whose detach side effect throws \<open>e\<close>, throws \<open>e\<close>; all it has
  done is the call of the side effect, so that every collection of every board is as
  it was and the item is still a member.
\<close>

theorem remove_failed_detach_keeps_member:
  assumes "mIsAddedToProject (boards w this)"
  shows
  "((dev_componentInstanceUuid (devices w d), d) \<in> set (mDeviceInstances (boards w this)) \<and>
    removeFromBoard_throws env d = Some e \<longrightarrow>
      removeDeviceInstance env this d w = (Thrown e, logCall (RemoveFromBoard d) w) \<and>
      d \<in> set (qmap_values (mDeviceInstances
             (boards (snd (removeDeviceInstance env this d w)) this)))) \<and>
   (s \<in> set (mNetSegments (boards w this)) \<and> removeFromBoard_throws env s = Some e \<longrightarrow>
      removeNetSegment env this s w = (Thrown e, logCall (RemoveFromBoard s) w) \<and>
      s \<in> set (mNetSegments (boards (snd (removeNetSegment env this s w)) this))) \<and>
   (p \<in> set (mPlanes (boards w this)) \<and> removeFromBoard_throws env p = Some e \<longrightarrow>
      removePlane env this p w = (Thrown e, logCall (RemoveFromBoard p) w) \<and>
      p \<in> set (mPlanes (boards (snd (removePlane env this p w)) this))) \<and>
   (q \<in> set (mPolygons (boards w this)) \<and> removeFromBoard_throws env q = Some e \<longrightarrow>
      removePolygon env this q w = (Thrown e, logCall (RemoveFromBoard q) w) \<and>
      q \<in> set (mPolygons (boards (snd (removePolygon env this q w)) this))) \<and>
   (t \<in> set (mStrokeTexts (boards w this)) \<and> removeFromBoard_throws env t = Some e \<longrightarrow>
      removeStrokeText env this t w = (Thrown e, logCall (RemoveFromBoard t) w) \<and>
      t \<in> set (mStrokeTexts (boards (snd (removeStrokeText env this t w)) this))) \<and>
   (h \<in> set (mHoles (boards w this)) \<and> removeFromBoard_throws env h = Some e \<longrightarrow>
      removeHole env this h w = (Thrown e, logCall (RemoveFromBoard h) w) \<and>
      h \<in> set (mHoles (boards (snd (removeHole env this h w)) this))) \<and>
   boards (logCall (RemoveFromBoard x) w) = boards w"
proof (intro conjI impI)
  assume a: "(dev_componentInstanceUuid (devices w d), d) \<in> set (mDeviceInstances (boards w this)) \<and>
    removeFromBoard_throws env d = Some e"
  then have "qmap_contains (mDeviceInstances (boards w this))
      (dev_componentInstanceUuid (devices w d))"
    by (force simp: qmap_contains_def)
  with a assms show r: "removeDeviceInstance env this d w =
      (Thrown e, logCall (RemoveFromBoard d) w)"
    by (simp add: removeDeviceInstance_def item_removeFromBoard_def)
  from a show "d \<in> set (qmap_values (mDeviceInstances
      (boards (snd (removeDeviceInstance env this d w)) this)))"
    by (force simp: r logCall_def qmap_values_def)
qed (use assms in \<open>simp_all add: removeNetSegment_def removePlane_def removePolygon_def
    removeStrokeText_def removeHole_def item_removeFromBoard_def logCall_def\<close>)

theorem remove_failed_detach_keeps_member_witness:
  "removeDeviceInstance detachFailsEnv 1 10 fullWorldAdded =
     (Thrown (OtherException 1), logCall (RemoveFromBoard 10) fullWorldAdded) \<and>
   removeNetSegment detachFailsEnv 1 11 fullWorldAdded =
     (Thrown (OtherException 1), logCall (RemoveFromBoard 11) fullWorldAdded) \<and>
   removePlane detachFailsEnv 1 12 fullWorldAdded =
     (Thrown (OtherException 1), logCall (RemoveFromBoard 12) fullWorldAdded) \<and>
   removePolygon detachFailsEnv 1 13 fullWorldAdded =
     (Thrown (OtherException 1), logCall (RemoveFromBoard 13) fullWorldAdded) \<and>
   removeStrokeText detachFailsEnv 1 14 fullWorldAdded =
     (Thrown (OtherException 1), logCall (RemoveFromBoard 14) fullWorldAdded) \<and>
   removeHole detachFailsEnv 1 15 fullWorldAdded =
     (Thrown (OtherException 1), logCall (RemoveFromBoard 15) fullWorldAdded) \<and>
   mPolygons (boards (snd (removePolygon detachFailsEnv 1 13 fullWorldAdded)) 1) = [13]"
proof -
  have added: "mIsAddedToProject (boards fullWorldAdded 1)"
    by (simp add: fullWorldAdded_def updBoard_def)
  have members:
    "(dev_componentInstanceUuid (devices fullWorldAdded 10), 10)
       \<in> set (mDeviceInstances (boards fullWorldAdded 1))"
    "11 \<in> set (mNetSegments (boards fullWorldAdded 1))"
    "12 \<in> set (mPlanes (boards fullWorldAdded 1))"
    "13 \<in> set (mPolygons (boards fullWorldAdded 1))"
    "14 \<in> set (mStrokeTexts (boards fullWorldAdded 1))"
    "15 \<in> set (mHoles (boards fullWorldAdded 1))"
    by (simp_all add: fullWorldAdded_def fullWorld_def updBoard_def emptyWorld_def
        emptyBoard_def noDevice_def)
  have throws: "removeFromBoard_throws detachFailsEnv i = Some (OtherException 1)" for i
    by (simp add: detachFailsEnv_def)
  have polygons: "mPolygons (boards (logCall (RemoveFromBoard 13) fullWorldAdded) 1) = [13]"
    by (simp add: logCall_def fullWorldAdded_def fullWorld_def updBoard_def emptyWorld_def
        emptyBoard_def)
  from remove_failed_detach_keeps_member
    [OF added, of 10 detachFailsEnv "OtherException 1" 11 12 13 14 15]
    members throws polygons
  show ?thesis by simp
qed

subsection \<open>The command that removes a polygon\<close>

text \<open>
  Claim C3: a command made for a polygon \<open>E\<close> that is a member of the polygons of its
  board (a list of \<open>n\<close> distinct polygons), with side effects of \<open>E\<close> that do not throw.
  Executing it returns \<open>true\<close> and leaves \<open>n - 1\<close> polygons without \<open>E\<close>; undoing it
  leaves \<open>n\<close> polygons with the address \<open>E\<close> among them, the object at \<open>E\<close> untouched;
  redoing it leaves the boards as the execution left them.
\<close>

lemma removePolygon_returns:
  assumes "E \<in> set (mPolygons (boards w B))" and "removeFromBoard_throws env E = None"
  shows "removePolygon env B E w =
    (Returned (),
     updBoard B (\<lambda>b. b\<lparr>mPolygons := remove1 E (mPolygons b)\<rparr>)
       (if mIsAddedToProject (boards w B) then logCall (RemoveFromBoard E) w else w))"
  using assms by (simp add: removePolygon_def item_removeFromBoard_def)

lemma addPolygon_returns:
  assumes "E \<notin> set (mPolygons (boards w B))" and "pg_board (polygons w E) = B"
    and "addToBoard_throws env E = None"
  shows "addPolygon env B E w =
    (Returned (),
     updBoard B (\<lambda>b. b\<lparr>mPolygons := mPolygons b @ [E]\<rparr>)
       (if mIsAddedToProject (boards w B) then logCall (AddToBoard E) w else w))"
  using assms by (simp add: addPolygon_def item_addToBoard_def)

theorem remove_polygon_command_roundtrip:
  assumes "cmd = newCmdBoardPolygonRemove w E"
    and "E \<in> set (mPolygons (boards w (mBoard cmd)))"
    and "distinct (mPolygons (boards w (mBoard cmd)))"
    and "removeFromBoard_throws env E = None"
    and "addToBoard_throws env E = None"
  shows "\<exists>w1 w2 w3.
    performExecute env cmd w = (Returned True, w1) \<and>
    length (mPolygons (boards w1 (mBoard cmd))) =
      length (mPolygons (boards w (mBoard cmd))) - 1 \<and>
    E \<notin> set (mPolygons (boards w1 (mBoard cmd))) \<and>
    performUndo env cmd w1 = (Returned (), w2) \<and>
    length (mPolygons (boards w2 (mBoard cmd))) = length (mPolygons (boards w (mBoard cmd))) \<and>
    E \<in> set (mPolygons (boards w2 (mBoard cmd))) \<and>
    polygons w2 = polygons w \<and>
    performRedo env cmd w2 = (Returned (), w3) \<and>
    boards w3 = boards w1"
proof -
  let ?B = "mBoard cmd"
  let ?S = "mPolygons (boards w ?B)"
  have B: "pg_board (polygons w E) = ?B" and P: "mPolygon cmd = E"
    using assms(1) by (simp_all add: newCmdBoardPolygonRemove_def)
  define w1 where "w1 = snd (removePolygon env ?B E w)"
  define w2 where "w2 = snd (addPolygon env ?B E w1)"
  define w3 where "w3 = snd (removePolygon env ?B E w2)"
  have r1: "removePolygon env ?B E w = (Returned (), w1)"
    unfolding w1_def using removePolygon_returns [OF assms(2,4)] by simp
  have b1: "boards w1 = (boards w)(?B := (boards w ?B)\<lparr>mPolygons := remove1 E ?S\<rparr>)"
    and O1: "polygons w1 = polygons w"
    unfolding w1_def using removePolygon_returns [OF assms(2,4)]
    by (simp_all add: updBoard_def logCall_def)
  have notin: "E \<notin> set (remove1 E ?S)"
    using assms(3) by simp
  then have notin1: "E \<notin> set (mPolygons (boards w1 ?B))"
    by (simp add: b1)
  have B1: "pg_board (polygons w1 E) = ?B"
    using B O1 by simp
  have r2: "addPolygon env ?B E w1 = (Returned (), w2)"
    unfolding w2_def using addPolygon_returns [OF notin1 B1 assms(5)] by simp
  have b2: "boards w2 =
      (boards w1)(?B := (boards w1 ?B)\<lparr>mPolygons := remove1 E ?S @ [E]\<rparr>)"
    and O2: "polygons w2 = polygons w"
    unfolding w2_def using addPolygon_returns [OF notin1 B1 assms(5)] O1
    by (simp_all add: updBoard_def logCall_def b1)
  have in2: "E \<in> set (mPolygons (boards w2 ?B))"
    by (simp add: b2)
  have r3: "removePolygon env ?B E w2 = (Returned (), w3)"
    unfolding w3_def using removePolygon_returns [OF in2 assms(4)] by simp
  have "remove1 E (remove1 E ?S @ [E]) = remove1 E ?S"
    using notin by (simp add: remove1_append)
  then have b3: "boards w3 = boards w1"
    unfolding w3_def using removePolygon_returns [OF in2 assms(4)]
    by (simp add: updBoard_def logCall_def b2 b1)
  have l1: "length (remove1 E ?S) = length ?S - 1"
    using assms(2) by (simp add: length_remove1)
  have l2: "length (remove1 E ?S @ [E]) = length ?S"
  proof -
    have "0 < length ?S"
      using assms(2) by (cases ?S) simp_all
    with assms(2) show ?thesis
      by (simp add: length_remove1)
  qed
  have "performExecute env cmd w = (Returned True, w1)"
    by (simp add: performExecute_def performRedo_def P r1)
  moreover have "performUndo env cmd w1 = (Returned (), w2)"
    by (simp add: performUndo_def P r2)
  moreover have "performRedo env cmd w2 = (Returned (), w3)"
    by (simp add: performRedo_def P r3)
  moreover have "length (mPolygons (boards w1 ?B)) = length ?S - 1"
    by (simp add: b1 l1)
  moreover have "length (mPolygons (boards w2 ?B)) = length ?S"
    using l2 by (simp add: b2)
  ultimately show ?thesis
    using notin1 in2 O2 b3 by blast
qed

theorem remove_polygon_command_roundtrip_witness:
  "13 \<in> set (mPolygons (boards fullWorldAdded 1)) \<and>
   distinct (mPolygons (boards fullWorldAdded 1)) \<and>
   (\<exists>w1 w2 w3.
      performExecute quietEnv \<lparr>mBoard = 1, mPolygon = 13\<rparr> fullWorldAdded =
        (Returned True, w1) \<and>
      length (mPolygons (boards w1 1)) = 0 \<and>
      13 \<notin> set (mPolygons (boards w1 1)) \<and>
      performUndo quietEnv \<lparr>mBoard = 1, mPolygon = 13\<rparr> w1 = (Returned (), w2) \<and>
      length (mPolygons (boards w2 1)) = 1 \<and>
      13 \<in> set (mPolygons (boards w2 1)) \<and>
      polygons w2 = polygons fullWorldAdded \<and>
      performRedo quietEnv \<lparr>mBoard = 1, mPolygon = 13\<rparr> w2 = (Returned (), w3) \<and>
      boards w3 = boards w1)"
proof -
  have cmd: "\<lparr>mBoard = 1, mPolygon = 13\<rparr> = newCmdBoardPolygonRemove fullWorldAdded 13"
    by (simp add: newCmdBoardPolygonRemove_def fullWorldAdded_def fullWorld_def
        updBoard_def emptyWorld_def)
  have S: "mPolygons (boards fullWorldAdded 1) = [13]"
    by (simp add: fullWorldAdded_def fullWorld_def updBoard_def emptyWorld_def
        emptyBoard_def)
  have quiet: "removeFromBoard_throws quietEnv 13 = None" "addToBoard_throws quietEnv 13 = None"
    by (simp_all add: quietEnv_def)
  from remove_polygon_command_roundtrip
    [of "\<lparr>mBoard = 1, mPolygon = 13\<rparr>" fullWorldAdded 13 quietEnv, OF cmd _ _ quiet]
    S
  show ?thesis by simp
qed

subsection \<open>The rebuild of the air wires\<close>

text \<open>
  The loops of \<open>triggerAirWiresRebuild\<close> change no field of a board but \<open>mAirWires\<close>.
\<close>

lemma sameButAirWires_refl: "sameButAirWires w w"
  by (simp add: sameButAirWires_def)

lemma sameButAirWires_trans:
  "sameButAirWires w w1 \<Longrightarrow> sameButAirWires w1 w2 \<Longrightarrow> sameButAirWires w w2"
  by (simp add: sameButAirWires_def)

lemma sameButAirWires_logCall: "sameButAirWires w (logCall c w)"
  by (simp add: sameButAirWires_def logCall_def)

lemma sameButAirWires_setAirWires:
  "sameButAirWires w (updBoard this (\<lambda>b. b\<lparr>mAirWires := f b\<rparr>) w)"
  by (simp add: sameButAirWires_def updBoard_def)

lemma sameButAirWires_item_removeFromBoard:
  "sameButAirWires w (snd (item_removeFromBoard env item w))"
  by (simp add: item_removeFromBoard_def sameButAirWires_logCall split: option.split)

lemma sameButAirWires_item_addToBoard:
  "sameButAirWires w (snd (item_addToBoard env item w))"
  by (simp add: item_addToBoard_def sameButAirWires_logCall split: option.split)

lemma sameButAirWires_removeOldAirWires:
  "sameButAirWires w (snd (removeOldAirWires env this netsignal w))"
proof (induction env this netsignal w rule: removeOldAirWires.induct)
  case (1 env this netsignal w)
  let ?taken = "qmultihash_take netsignal (mAirWires (boards w this))"
  let ?w1 = "updBoard this (\<lambda>b. b\<lparr>mAirWires := snd ?taken\<rparr>) w"
  have w1: "sameButAirWires w ?w1"
    by (rule sameButAirWires_setAirWires)
  show ?case
  proof (cases "fst ?taken = nullptr")
    case True
    then show ?thesis
      by (subst removeOldAirWires.simps) (simp add: Let_def w1)
  next
    case False
    show ?thesis
    proof (cases "removeFromBoard_throws env (fst ?taken) = None")
      case True
      from "1.IH" [OF refl refl refl False True]
      have "sameButAirWires (snd (item_removeFromBoard env (fst ?taken) ?w1))
        (snd (removeOldAirWires env this netsignal
          (snd (item_removeFromBoard env (fst ?taken) ?w1))))" .
      with w1 sameButAirWires_item_removeFromBoard [of ?w1 env "fst ?taken"]
      have "sameButAirWires w (snd (removeOldAirWires env this netsignal
          (snd (item_removeFromBoard env (fst ?taken) ?w1))))"
        by (blast intro: sameButAirWires_trans)
      with False True show ?thesis
        by (subst removeOldAirWires.simps) (simp add: Let_def)
    next
      case t: False
      from w1 sameButAirWires_item_removeFromBoard [of ?w1 env "fst ?taken"]
      have "sameButAirWires w (snd (item_removeFromBoard env (fst ?taken) ?w1))"
        by (blast intro: sameButAirWires_trans)
      with False t show ?thesis
        by (subst removeOldAirWires.simps) (auto simp: Let_def)
    qed
  qed
qed

lemma sameButAirWires_addNewAirWires:
  "sameButAirWires w (snd (addNewAirWires env this netsignal pairs w))"
proof (induction pairs arbitrary: w)
  case Nil
  show ?case by (simp add: sameButAirWires_refl)
next
  case (Cons points rest)
  let ?w1 = "(allocated w)\<lparr>airwires := (airwires w)(new_ptr w :=
      \<lparr>aw_board = this, aw_netSignal = netsignal, aw_p1 = fst points, aw_p2 = snd points\<rparr>)\<rparr>"
  have a: "sameButAirWires w ?w1"
    by (simp add: sameButAirWires_def allocated_def)
  have b: "sameButAirWires ?w1 (snd (item_addToBoard env (new_ptr w) ?w1))"
    by (rule sameButAirWires_item_addToBoard)
  show ?case
  proof (cases "item_addToBoard env (new_ptr w) ?w1")
    case (Pair r w2)
    with a b have w2: "sameButAirWires w w2"
      by (auto intro: sameButAirWires_trans)
    show ?thesis
    proof (cases r)
      case (Returned u)
      let ?w3 = "updBoard this
        (\<lambda>b. b\<lparr>mAirWires := qmultihash_insertMulti netsignal (new_ptr w) (mAirWires b)\<rparr>) w2"
      have "sameButAirWires w2 ?w3"
        by (rule sameButAirWires_setAirWires)
      with w2 Cons.IH [of ?w3]
      have "sameButAirWires w (snd (addNewAirWires env this netsignal rest ?w3))"
        by (blast intro: sameButAirWires_trans)
      with Pair Returned show ?thesis
        by (simp add: Let_def)
    qed (use Pair w2 in \<open>simp_all add: Let_def\<close>)
  qed
qed

lemma sameButAirWires_rebuildAirWiresOf:
  "sameButAirWires w (snd (rebuildAirWiresOf env this netsignal w))"
proof (cases "removeOldAirWires env this netsignal w")
  case (Pair r w1)
  with sameButAirWires_removeOldAirWires [of w env this netsignal]
  have w1: "sameButAirWires w w1" by simp
  have l: "sameButAirWires w (logCall (BuildAirWires netsignal) w1)"
    using w1 sameButAirWires_logCall by (blast intro: sameButAirWires_trans)
  have "sameButAirWires w
      (snd (addNewAirWires env this netsignal pairs (logCall (BuildAirWires netsignal) w1)))"
    for pairs
    using l sameButAirWires_addNewAirWires by (blast intro: sameButAirWires_trans)
  with Pair w1 l show ?thesis
    by (cases r) (simp_all add: rebuildAirWiresOf_def split: sum.split)
qed

lemma sameButAirWires_rebuildAirWiresLoop:
  "sameButAirWires w (snd (rebuildAirWiresLoop env this netsignals w))"
proof (induction netsignals arbitrary: w)
  case Nil
  show ?case by (simp add: sameButAirWires_refl)
next
  case (Cons netsignal rest)
  show ?case
  proof (cases "rebuildAirWiresOf env this netsignal w")
    case (Pair r w1)
    with sameButAirWires_rebuildAirWiresOf [of w env this netsignal]
    have w1: "sameButAirWires w w1" by simp
    with Cons.IH [of w1] have "sameButAirWires w (snd (rebuildAirWiresLoop env this rest w1))"
      by (blast intro: sameButAirWires_trans)
    with Pair w1 show ?thesis
      by (cases r) simp_all
  qed
qed

lemma sameButAirWires_fields:
  assumes "sameButAirWires w w'"
  shows "mScheduledNetSignalsForAirWireRebuild (boards w' b) =
      mScheduledNetSignalsForAirWireRebuild (boards w b)"
    and "mIsAddedToProject (boards w' b) = mIsAddedToProject (boards w b)"
proof -
  from assms have e: "(boards w' b)\<lparr>mAirWires := []\<rparr> = (boards w b)\<lparr>mAirWires := []\<rparr>"
    by (simp add: sameButAirWires_def)
  from arg_cong [OF e, of mScheduledNetSignalsForAirWireRebuild]
  show "mScheduledNetSignalsForAirWireRebuild (boards w' b) =
      mScheduledNetSignalsForAirWireRebuild (boards w b)" by simp
  from arg_cong [OF e, of mIsAddedToProject]
  show "mIsAddedToProject (boards w' b) = mIsAddedToProject (boards w b)" by simp
qed

lemma set_qset_unite: "set (qset_unite s xs) = set s \<union> set xs"
proof -
  have "set (foldl (\<lambda>acc x. qset_insert x acc) s xs) = set s \<union> set xs"
    by (induction xs arbitrary: s) (auto simp: qset_insert_def)
  then show ?thesis by (simp add: qset_unite_def)
qed

text \<open>
  Claim C7, as amended: on a board that is not added to the project,
  \<open>triggerAirWiresRebuild\<close> leaves the world as it is; \<open>forceAirWiresRebuild\<close> removes and
  creates no air wire and calls no collaborator, but it has scheduled the net signals of
  the circuit and those of the air wires: the world it leaves is the world before with
  this set in \<open>mScheduledNetSignalsForAirWireRebuild\<close>.
\<close>

theorem airwires_rebuild_when_not_added:
  assumes "\<not> mIsAddedToProject (boards w this)"
  shows "triggerAirWiresRebuild env this w = w \<and>
    forceAirWiresRebuild env this w =
      updBoard this
        (\<lambda>b. b\<lparr>mScheduledNetSignalsForAirWireRebuild :=
             mScheduledNetSignalsForAirWireRebuild
               (boards (forceAirWiresRebuild env this w) this)\<rparr>) w \<and>
    set (mScheduledNetSignalsForAirWireRebuild
           (boards (forceAirWiresRebuild env this w) this)) =
      set (mScheduledNetSignalsForAirWireRebuild (boards w this)) \<union>
      set (qmap_values (circuit_netSignals w)) \<union>
      set (qhash_keys (mAirWires (boards w this)))"
proof -
  let ?w = "updBoard this
    (\<lambda>b. b\<lparr>mScheduledNetSignalsForAirWireRebuild :=
         qset_unite
           (qset_unite (mScheduledNetSignalsForAirWireRebuild b)
              (qmap_values (circuit_netSignals w)))
           (qhash_keys (mAirWires b))\<rparr>) w"
  have "\<not> mIsAddedToProject (boards ?w this)"
    using assms by (simp add: updBoard_def)
  then have force: "forceAirWiresRebuild env this w = ?w"
    by (simp add: forceAirWiresRebuild_def triggerAirWiresRebuild_def)
  have "triggerAirWiresRebuild env this w = w"
    using assms by (simp add: triggerAirWiresRebuild_def)
  moreover have "?w = updBoard this
      (\<lambda>b. b\<lparr>mScheduledNetSignalsForAirWireRebuild :=
           mScheduledNetSignalsForAirWireRebuild (boards ?w this)\<rparr>) w"
    by (simp add: updBoard_def)
  moreover have "set (mScheduledNetSignalsForAirWireRebuild (boards ?w this)) =
      set (mScheduledNetSignalsForAirWireRebuild (boards w this)) \<union>
      set (qmap_values (circuit_netSignals w)) \<union>
      set (qhash_keys (mAirWires (boards w this)))"
    by (simp add: updBoard_def set_qset_unite)
  ultimately show ?thesis
    by (simp only: force)
qed

theorem airwires_rebuild_when_not_added_witness:
  "\<not> mIsAddedToProject (boards airWorld 1) \<and>
   triggerAirWiresRebuild airEnv 1 airWorld = airWorld \<and>
   set (mScheduledNetSignalsForAirWireRebuild
          (boards (forceAirWiresRebuild airEnv 1 airWorld) 1)) = {7}"
proof -
  have h: "\<not> mIsAddedToProject (boards airWorld 1)"
    by (simp add: airWorld_def emptyWorld_def emptyBoard_def)
  have "set (mScheduledNetSignalsForAirWireRebuild (boards airWorld 1)) \<union>
      set (qmap_values (circuit_netSignals airWorld)) \<union>
      set (qhash_keys (mAirWires (boards airWorld 1))) = {7}"
    by (simp add: airWorld_def emptyWorld_def emptyBoard_def qmap_values_def qhash_keys_def)
  with airwires_rebuild_when_not_added [OF h, of airEnv] h show ?thesis
    by simp
qed

text \<open>
  Claim C7 as stated fails for \<open>forceAirWiresRebuild\<close>: board 1 of \<open>airWorld\<close> is not added
  to the project and has nothing scheduled; afterwards the net signal 7 of the circuit is
  scheduled, so the state of the board has changed.
\<close>

theorem forceAirWiresRebuild_not_added_counterexample:
  "\<not> mIsAddedToProject (boards airWorld 1) \<and>
   mScheduledNetSignalsForAirWireRebuild (boards airWorld 1) = [] \<and>
   mScheduledNetSignalsForAirWireRebuild
     (boards (forceAirWiresRebuild airEnv 1 airWorld) 1) = [7] \<and>
   forceAirWiresRebuild airEnv 1 airWorld \<noteq> airWorld"
proof -
  have a: "\<not> mIsAddedToProject (boards airWorld 1)"
    and b: "mScheduledNetSignalsForAirWireRebuild (boards airWorld 1) = []"
    by (simp_all add: airWorld_def emptyWorld_def emptyBoard_def)
  have c: "mScheduledNetSignalsForAirWireRebuild
      (boards (forceAirWiresRebuild airEnv 1 airWorld) 1) = [7]"
    by (simp add: forceAirWiresRebuild_def triggerAirWiresRebuild_def updBoard_def
        airWorld_def emptyWorld_def emptyBoard_def qset_unite_def qset_insert_def
        qmap_values_def qhash_keys_def)
  from b c have "forceAirWiresRebuild airEnv 1 airWorld \<noteq> airWorld"
    by auto
  with a b c show ?thesis by simp
qed

text \<open>Collaborators that do not throw let the loops return.\<close>

lemma removeOldAirWires_returns:
  assumes "\<forall>p. removeFromBoard_throws env p = None"
  shows "fst (removeOldAirWires env this netsignal w) = Returned ()"
  using assms
proof (induction env this netsignal w rule: removeOldAirWires.induct)
  case (1 env this netsignal w)
  let ?taken = "qmultihash_take netsignal (mAirWires (boards w this))"
  show ?case
  proof (cases "fst ?taken = nullptr")
    case True
    then show ?thesis
      by (subst removeOldAirWires.simps) (simp add: Let_def)
  next
    case False
    from "1.prems" have none: "removeFromBoard_throws env (fst ?taken) = None"
      by simp
    from "1.IH" [OF refl refl refl False none "1.prems"] False none show ?thesis
      by (subst removeOldAirWires.simps) (simp add: Let_def)
  qed
qed

lemma addNewAirWires_returns:
  assumes "\<forall>p. addToBoard_throws env p = None"
  shows "fst (addNewAirWires env this netsignal pairs w) = Returned ()"
  using assms
  by (induction pairs arbitrary: w) (simp_all add: Let_def item_addToBoard_def)

lemma rebuildAirWiresOf_returns:
  assumes "\<forall>p. removeFromBoard_throws env p = None"
    and "\<forall>p. addToBoard_throws env p = None"
    and "\<forall>w' n. \<exists>pairs. buildAirWires env w' this n = Inr pairs"
  shows "fst (rebuildAirWiresOf env this netsignal w) = Returned ()"
proof (cases "removeOldAirWires env this netsignal w")
  case (Pair r w1)
  with removeOldAirWires_returns [OF assms(1), of this netsignal w]
  have r: "r = Returned ()" by simp
  from assms(3) obtain pairs where "buildAirWires env w1 this netsignal = Inr pairs"
    by blast
  with Pair r addNewAirWires_returns [OF assms(2)] show ?thesis
    by (simp add: rebuildAirWiresOf_def)
qed

lemma rebuildAirWiresLoop_returns:
  assumes "\<forall>p. removeFromBoard_throws env p = None"
    and "\<forall>p. addToBoard_throws env p = None"
    and "\<forall>w' n. \<exists>pairs. buildAirWires env w' this n = Inr pairs"
  shows "fst (rebuildAirWiresLoop env this netsignals w) = Returned ()"
proof (induction netsignals arbitrary: w)
  case Nil
  show ?case by simp
next
  case (Cons netsignal rest)
  show ?case
  proof (cases "rebuildAirWiresOf env this netsignal w")
    case (Pair r w1)
    with rebuildAirWiresOf_returns [OF assms, of netsignal w]
    have "r = Returned ()" by simp
    with Pair Cons.IH [of w1] show ?thesis by simp
  qed
qed

text \<open>What the loops log.\<close>

lemma airWireCallsOnly_iff:
  "airWireCallsOnly ns w w' \<longleftrightarrow>
   (\<exists>new. calls w' = calls w @ new \<and> list_all (airWireCall ns) new)"
proof
  assume a: "airWireCallsOnly ns w w'"
  then have "calls w' = calls w @ newCalls w w'"
    unfolding airWireCallsOnly_def newCalls_def
    by (metis append_take_drop_id)
  with a show "\<exists>new. calls w' = calls w @ new \<and> list_all (airWireCall ns) new"
    unfolding airWireCallsOnly_def by blast
next
  assume "\<exists>new. calls w' = calls w @ new \<and> list_all (airWireCall ns) new"
  then show "airWireCallsOnly ns w w'"
    by (auto simp: airWireCallsOnly_def newCalls_def)
qed

lemma airWireCallsOnly_same: "calls w' = calls w \<Longrightarrow> airWireCallsOnly ns w w'"
  by (simp add: airWireCallsOnly_def newCalls_def)

lemma airWireCallsOnly_trans:
  "airWireCallsOnly ns w w1 \<Longrightarrow> airWireCallsOnly ns w1 w2 \<Longrightarrow> airWireCallsOnly ns w w2"
  unfolding airWireCallsOnly_iff by auto

lemma airWireCall_mono: "set ns \<subseteq> set ns' \<Longrightarrow> airWireCall ns c \<Longrightarrow> airWireCall ns' c"
  by (cases c) auto

lemma airWireCallsOnly_mono:
  "set ns \<subseteq> set ns' \<Longrightarrow> airWireCallsOnly ns w w' \<Longrightarrow> airWireCallsOnly ns' w w'"
  unfolding airWireCallsOnly_iff list_all_iff
  by (blast intro: airWireCall_mono)

lemma airWireCallsOnly_logCall: "airWireCall ns c \<Longrightarrow> airWireCallsOnly ns w (logCall c w)"
  by (simp add: airWireCallsOnly_iff logCall_def)

lemma airWireCallsOnly_item_removeFromBoard:
  "airWireCallsOnly ns w (snd (item_removeFromBoard env item w))"
  by (simp add: item_removeFromBoard_def airWireCallsOnly_logCall split: option.split)

lemma airWireCallsOnly_item_addToBoard:
  "airWireCallsOnly ns w (snd (item_addToBoard env item w))"
  by (simp add: item_addToBoard_def airWireCallsOnly_logCall split: option.split)

lemma airWireCallsOnly_removeOldAirWires:
  "airWireCallsOnly ns w (snd (removeOldAirWires env this netsignal w))"
proof (induction env this netsignal w rule: removeOldAirWires.induct)
  case (1 env this netsignal w)
  let ?taken = "qmultihash_take netsignal (mAirWires (boards w this))"
  let ?w1 = "updBoard this (\<lambda>b. b\<lparr>mAirWires := snd ?taken\<rparr>) w"
  have w1: "airWireCallsOnly ns w ?w1"
    by (rule airWireCallsOnly_same) (simp add: updBoard_def)
  from w1 airWireCallsOnly_item_removeFromBoard
  have w2: "airWireCallsOnly ns w (snd (item_removeFromBoard env (fst ?taken) ?w1))"
    by (rule airWireCallsOnly_trans)
  show ?case
  proof (cases "fst ?taken = nullptr")
    case True
    with w1 show ?thesis
      by (subst removeOldAirWires.simps) (simp add: Let_def)
  next
    case False
    show ?thesis
    proof (cases "removeFromBoard_throws env (fst ?taken) = None")
      case True
      from w2 "1.IH" [OF refl refl refl False True]
      have "airWireCallsOnly ns w (snd (removeOldAirWires env this netsignal
          (snd (item_removeFromBoard env (fst ?taken) ?w1))))"
        by (rule airWireCallsOnly_trans)
      with False True show ?thesis
        by (subst removeOldAirWires.simps) (simp add: Let_def)
    next
      case t: False
      with False w2 show ?thesis
        by (subst removeOldAirWires.simps) (auto simp: Let_def)
    qed
  qed
qed

lemma airWireCallsOnly_addNewAirWires:
  "airWireCallsOnly ns w (snd (addNewAirWires env this netsignal pairs w))"
proof (induction pairs arbitrary: w)
  case Nil
  show ?case by (simp add: airWireCallsOnly_same)
next
  case (Cons points rest)
  let ?w1 = "(allocated w)\<lparr>airwires := (airwires w)(new_ptr w :=
      \<lparr>aw_board = this, aw_netSignal = netsignal, aw_p1 = fst points, aw_p2 = snd points\<rparr>)\<rparr>"
  have "airWireCallsOnly ns w ?w1"
    by (rule airWireCallsOnly_same) (simp add: allocated_def)
  from this airWireCallsOnly_item_addToBoard
  have b: "airWireCallsOnly ns w (snd (item_addToBoard env (new_ptr w) ?w1))"
    by (rule airWireCallsOnly_trans)
  show ?case
  proof (cases "item_addToBoard env (new_ptr w) ?w1")
    case (Pair r w2)
    with b have w2: "airWireCallsOnly ns w w2"
      by simp
    let ?w3 = "updBoard this
      (\<lambda>b. b\<lparr>mAirWires := qmultihash_insertMulti netsignal (new_ptr w) (mAirWires b)\<rparr>) w2"
    have "airWireCallsOnly ns w2 ?w3"
      by (rule airWireCallsOnly_same) (simp add: updBoard_def)
    with w2 have "airWireCallsOnly ns w ?w3"
      by (rule airWireCallsOnly_trans)
    from this Cons.IH [of ?w3]
    have "airWireCallsOnly ns w (snd (addNewAirWires env this netsignal rest ?w3))"
      by (rule airWireCallsOnly_trans)
    with Pair w2 show ?thesis
      by (cases r) (simp_all add: Let_def)
  qed
qed

lemma airWireCallsOnly_rebuildAirWiresOf:
  "airWireCallsOnly [netsignal] w (snd (rebuildAirWiresOf env this netsignal w))"
proof (cases "removeOldAirWires env this netsignal w")
  case (Pair r w1)
  with airWireCallsOnly_removeOldAirWires [of "[netsignal]" w env this netsignal]
  have w1: "airWireCallsOnly [netsignal] w w1" by simp
  have "airWireCallsOnly [netsignal] w1 (logCall (BuildAirWires netsignal) w1)"
    by (rule airWireCallsOnly_logCall) simp
  with w1 have l: "airWireCallsOnly [netsignal] w (logCall (BuildAirWires netsignal) w1)"
    by (rule airWireCallsOnly_trans)
  have "airWireCallsOnly [netsignal] w
      (snd (addNewAirWires env this netsignal pairs (logCall (BuildAirWires netsignal) w1)))"
    for pairs
    using l airWireCallsOnly_addNewAirWires by (rule airWireCallsOnly_trans)
  with Pair w1 l show ?thesis
    by (cases r) (simp_all add: rebuildAirWiresOf_def split: sum.split)
qed

lemma airWireCallsOnly_rebuildAirWiresLoop:
  "airWireCallsOnly netsignals w (snd (rebuildAirWiresLoop env this netsignals w))"
proof (induction netsignals arbitrary: w)
  case Nil
  show ?case by (simp add: airWireCallsOnly_same)
next
  case (Cons netsignal rest)
  show ?case
  proof (cases "rebuildAirWiresOf env this netsignal w")
    case (Pair r w1)
    with airWireCallsOnly_rebuildAirWiresOf [of netsignal w env this]
    have "airWireCallsOnly [netsignal] w w1" by simp
    then have w1: "airWireCallsOnly (netsignal # rest) w w1"
      by (rule airWireCallsOnly_mono [rotated]) auto
    have "airWireCallsOnly (netsignal # rest) w1 (snd (rebuildAirWiresLoop env this rest w1))"
      using Cons.IH [of w1] by (rule airWireCallsOnly_mono [rotated]) auto
    with w1
    have "airWireCallsOnly (netsignal # rest) w (snd (rebuildAirWiresLoop env this rest w1))"
      by (rule airWireCallsOnly_trans)
    with Pair w1 show ?thesis
      by (cases r) simp_all
  qed
qed

text \<open>The loop over a list of net signals that is given in two parts.\<close>

lemma rebuildAirWiresLoop_append:
  "rebuildAirWiresLoop env this (pre @ rest) w =
   (case rebuildAirWiresLoop env this pre w of
      (Returned _, w1) \<Rightarrow> rebuildAirWiresLoop env this rest w1
    | (Thrown e, w1) \<Rightarrow> (Thrown e, w1)
    | (Aborted, w1) \<Rightarrow> (Aborted, w1))"
proof (induction pre arbitrary: w)
  case Nil
  show ?case by simp
next
  case (Cons netsignal pre)
  show ?case
  proof (cases "rebuildAirWiresOf env this netsignal w")
    case (Pair r w1)
    with Cons.IH [of w1] show ?thesis
      by (cases r) simp_all
  qed
qed

text \<open>
  Claim C8, as amended: \<open>triggerAirWiresRebuild\<close> on a board that is added to the project.

  When the loop over the scheduled net signals comes to its end, which it does when no
  collaborator throws, the scheduled set is left empty, and nothing but the calls of the
  loop is logged: attaches and detaches of air wires, and calls of the builder for
  scheduled net signals.

  When a step of the loop throws, the scheduled set is left as it was. In detail, let the
  scheduled net signals be \<open>pre\<close>, then \<open>n\<close>, then \<open>post\<close>, let the loop over \<open>pre\<close> return in
  the state \<open>w1\<close>, and let the step for \<open>n\<close> throw in the state \<open>w2\<close>. Then the call returns
  the state \<open>w2\<close> with the failure logged (\<open>QCritical\<close>) as the last call; the calls before
  it are attaches and detaches of air wires and calls of the builder for the net signals
  of \<open>pre\<close> and for \<open>n\<close>: the net signals of \<open>post\<close> are not visited.
\<close>

theorem triggerAirWiresRebuild_scheduled:
  assumes "mIsAddedToProject (boards w this)"
  shows
  "mScheduledNetSignalsForAirWireRebuild (boards (triggerAirWiresRebuild env this w) this) =
     (if fst (rebuildAirWiresLoop env this
                (mScheduledNetSignalsForAirWireRebuild (boards w this)) w) = Returned ()
      then [] else mScheduledNetSignalsForAirWireRebuild (boards w this)) \<and>
   ((\<forall>p. removeFromBoard_throws env p = None) \<and> (\<forall>p. addToBoard_throws env p = None) \<and>
    (\<forall>w' n. \<exists>pairs. buildAirWires env w' this n = Inr pairs) \<longrightarrow>
      mScheduledNetSignalsForAirWireRebuild
        (boards (triggerAirWiresRebuild env this w) this) = []) \<and>
   (fst (rebuildAirWiresLoop env this
           (mScheduledNetSignalsForAirWireRebuild (boards w this)) w) = Returned () \<longrightarrow>
      airWireCallsOnly (mScheduledNetSignalsForAirWireRebuild (boards w this)) w
        (triggerAirWiresRebuild env this w)) \<and>
   (mScheduledNetSignalsForAirWireRebuild (boards w this) = pre @ n # post \<and>
    rebuildAirWiresLoop env this pre w = (Returned (), w1) \<and>
    rebuildAirWiresOf env this n w1 = (Thrown e, w2) \<longrightarrow>
      triggerAirWiresRebuild env this w = logCall QCritical w2 \<and>
      calls (triggerAirWiresRebuild env this w) = calls w2 @ [QCritical] \<and>
      airWireCallsOnly (pre @ [n]) w w2 \<and>
      newCalls w (triggerAirWiresRebuild env this w) = newCalls w w2 @ [QCritical] \<and>
      mScheduledNetSignalsForAirWireRebuild
        (boards (triggerAirWiresRebuild env this w) this) = pre @ n # post)"
proof -
  let ?pending = "mScheduledNetSignalsForAirWireRebuild (boards w this)"
  let ?loop = "rebuildAirWiresLoop env this ?pending w"
  let ?after = "triggerAirWiresRebuild env this w"
  have same: "mScheduledNetSignalsForAirWireRebuild (boards (snd ?loop) this) = ?pending"
    by (rule sameButAirWires_fields(1) [OF sameButAirWires_rebuildAirWiresLoop])
  have first: "mScheduledNetSignalsForAirWireRebuild (boards ?after this) =
      (if fst ?loop = Returned () then [] else ?pending)"
  proof (cases ?loop)
    case (Pair r w')
    with same have "mScheduledNetSignalsForAirWireRebuild (boards w' this) = ?pending"
      by simp
    with Pair assms show ?thesis
      by (cases r) (simp_all add: triggerAirWiresRebuild_def updBoard_def logCall_def)
  qed
  have second: "mScheduledNetSignalsForAirWireRebuild (boards ?after this) = []"
    if "(\<forall>p. removeFromBoard_throws env p = None) \<and> (\<forall>p. addToBoard_throws env p = None) \<and>
      (\<forall>w' n. \<exists>pairs. buildAirWires env w' this n = Inr pairs)"
  proof -
    from that rebuildAirWiresLoop_returns [of env this ?pending w]
    have "fst ?loop = Returned ()" by blast
    with first show ?thesis by simp
  qed
  have third: "airWireCallsOnly ?pending w ?after" if r: "fst ?loop = Returned ()"
  proof -
    from r have "?after =
        updBoard this (\<lambda>b. b\<lparr>mScheduledNetSignalsForAirWireRebuild := []\<rparr>) (snd ?loop)"
      using assms by (cases ?loop) (simp add: triggerAirWiresRebuild_def)
    then have "calls ?after = calls (snd ?loop)"
      by (simp add: updBoard_def)
    then have "airWireCallsOnly ?pending (snd ?loop) ?after"
      by (rule airWireCallsOnly_same)
    with airWireCallsOnly_rebuildAirWiresLoop show ?thesis
      by (rule airWireCallsOnly_trans)
  qed
  have fourth: "?after = logCall QCritical w2 \<and>
      calls ?after = calls w2 @ [QCritical] \<and>
      airWireCallsOnly (pre @ [n]) w w2 \<and>
      newCalls w ?after = newCalls w w2 @ [QCritical] \<and>
      mScheduledNetSignalsForAirWireRebuild (boards ?after this) = pre @ n # post"
    if p: "?pending = pre @ n # post"
      and l: "rebuildAirWiresLoop env this pre w = (Returned (), w1)"
      and s: "rebuildAirWiresOf env this n w1 = (Thrown e, w2)"
  proof -
    from l s have loop: "rebuildAirWiresLoop env this (pre @ n # post) w = (Thrown e, w2)"
      by (simp add: rebuildAirWiresLoop_append)
    with p assms have after: "?after = logCall QCritical w2"
      by (simp add: triggerAirWiresRebuild_def)
    then have log: "calls ?after = calls w2 @ [QCritical]"
      by (simp add: logCall_def)
    from l airWireCallsOnly_rebuildAirWiresLoop [of pre w env this]
    have "airWireCallsOnly pre w w1" by simp
    then have a: "airWireCallsOnly (pre @ [n]) w w1"
      by (rule airWireCallsOnly_mono [rotated]) auto
    from s airWireCallsOnly_rebuildAirWiresOf [of n w1 env this]
    have "airWireCallsOnly [n] w1 w2" by simp
    then have "airWireCallsOnly (pre @ [n]) w1 w2"
      by (rule airWireCallsOnly_mono [rotated]) auto
    with a have only: "airWireCallsOnly (pre @ [n]) w w2"
      by (rule airWireCallsOnly_trans)
    then obtain new where new: "calls w2 = calls w @ new"
      unfolding airWireCallsOnly_iff by blast
    with log have new': "newCalls w ?after = newCalls w w2 @ [QCritical]"
      by (simp add: newCalls_def)
    from loop p first have "mScheduledNetSignalsForAirWireRebuild (boards ?after this) =
        pre @ n # post"
      by simp
    with after log only new' show ?thesis
      by simp
  qed
  from first second third fourth show ?thesis
    by blast
qed

text \<open>
  On \<open>pendingWorld\<close>, with collaborators that do not throw: the net signal 7 is rebuilt and
  the scheduled set is empty afterwards. On \<open>pendingTwoWorld\<close>, with a builder that throws
  for the net signal 7: the builder is called for 7, the failure is logged, the net
  signal 8 is not visited, and both are still scheduled.
\<close>

theorem triggerAirWiresRebuild_scheduled_witness:
  "mIsAddedToProject (boards pendingWorld 1) \<and>
   mScheduledNetSignalsForAirWireRebuild (boards pendingWorld 1) = [7] \<and>
   mScheduledNetSignalsForAirWireRebuild
     (boards (triggerAirWiresRebuild airEnv 1 pendingWorld) 1) = [] \<and>
   airWireCallsOnly [7] pendingWorld (triggerAirWiresRebuild airEnv 1 pendingWorld) \<and>
   mIsAddedToProject (boards pendingTwoWorld 1) \<and>
   mScheduledNetSignalsForAirWireRebuild (boards pendingTwoWorld 1) = [] @ 7 # [8] \<and>
   rebuildAirWiresLoop buildFailsOnceEnv 1 [] pendingTwoWorld = (Returned (), pendingTwoWorld) \<and>
   fst (rebuildAirWiresOf buildFailsOnceEnv 1 7 pendingTwoWorld) = Thrown (OtherException 2) \<and>
   calls (triggerAirWiresRebuild buildFailsOnceEnv 1 pendingTwoWorld) =
     [BuildAirWires 7, QCritical] \<and>
   mScheduledNetSignalsForAirWireRebuild
     (boards (triggerAirWiresRebuild buildFailsOnceEnv 1 pendingTwoWorld) 1) = [7, 8]"
proof -
  have h: "mIsAddedToProject (boards pendingWorld 1)"
    and p: "mScheduledNetSignalsForAirWireRebuild (boards pendingWorld 1) = [7]"
    by (simp_all add: pendingWorld_def updBoard_def)
  have quiet: "(\<forall>p. removeFromBoard_throws airEnv p = None) \<and>
    (\<forall>p. addToBoard_throws airEnv p = None) \<and>
    (\<forall>w' n. \<exists>pairs. buildAirWires airEnv w' 1 n = Inr pairs)"
    by (simp add: airEnv_def quietEnv_def)
  have returns: "fst (rebuildAirWiresLoop airEnv 1
      (mScheduledNetSignalsForAirWireRebuild (boards pendingWorld 1)) pendingWorld) =
      Returned ()"
    using quiet by (intro rebuildAirWiresLoop_returns) simp_all
  note quietCase = triggerAirWiresRebuild_scheduled [OF h, where env = airEnv]
  from quietCase quiet
  have empty: "mScheduledNetSignalsForAirWireRebuild
      (boards (triggerAirWiresRebuild airEnv 1 pendingWorld) 1) = []"
    by blast
  from quietCase returns
  have "airWireCallsOnly (mScheduledNetSignalsForAirWireRebuild (boards pendingWorld 1))
      pendingWorld (triggerAirWiresRebuild airEnv 1 pendingWorld)"
    by blast
  then have only: "airWireCallsOnly [7] pendingWorld
      (triggerAirWiresRebuild airEnv 1 pendingWorld)"
    unfolding p .
  have h2: "mIsAddedToProject (boards pendingTwoWorld 1)"
    and p2: "mScheduledNetSignalsForAirWireRebuild (boards pendingTwoWorld 1) = [] @ 7 # [8]"
    by (simp_all add: pendingTwoWorld_def updBoard_def)
  have l2: "rebuildAirWiresLoop buildFailsOnceEnv 1 [] pendingTwoWorld =
      (Returned (), pendingTwoWorld)"
    by simp
  have step: "rebuildAirWiresOf buildFailsOnceEnv 1 7 pendingTwoWorld =
      (Thrown (OtherException 2),
       logCall (BuildAirWires 7) (updBoard 1 (\<lambda>b. b\<lparr>mAirWires := []\<rparr>) pendingTwoWorld))"
    by (simp add: rebuildAirWiresOf_def removeOldAirWires.simps pendingTwoWorld_def
        airWorld_def buildFailsOnceEnv_def quietEnv_def updBoard_def logCall_def
        emptyWorld_def emptyBoard_def nullptr_def)
  note failCase = triggerAirWiresRebuild_scheduled
    [OF h2, where env = buildFailsOnceEnv and pre = "[]" and n = 7 and post = "[8]"
      and ?w1.0 = pendingTwoWorld and e = "OtherException 2"
      and ?w2.0 = "logCall (BuildAirWires 7)
        (updBoard 1 (\<lambda>b. b\<lparr>mAirWires := []\<rparr>) pendingTwoWorld)"]
  from failCase p2 l2 step
  have log: "calls (triggerAirWiresRebuild buildFailsOnceEnv 1 pendingTwoWorld) =
      calls (logCall (BuildAirWires 7)
        (updBoard 1 (\<lambda>b. b\<lparr>mAirWires := []\<rparr>) pendingTwoWorld)) @ [QCritical]"
    and pending: "mScheduledNetSignalsForAirWireRebuild
      (boards (triggerAirWiresRebuild buildFailsOnceEnv 1 pendingTwoWorld) 1) = [] @ 7 # [8]"
    by blast+
  have "calls (logCall (BuildAirWires 7)
      (updBoard 1 (\<lambda>b. b\<lparr>mAirWires := []\<rparr>) pendingTwoWorld)) = [BuildAirWires 7]"
    by (simp add: logCall_def updBoard_def pendingTwoWorld_def airWorld_def emptyWorld_def)
  with log have log': "calls (triggerAirWiresRebuild buildFailsOnceEnv 1 pendingTwoWorld) =
      [BuildAirWires 7, QCritical]"
    by simp
  from h p empty only h2 p2 l2 step log' pending show ?thesis
    by simp
qed

text \<open>
  Claim C8 as stated fails: board 1 of \<open>pendingWorld\<close> is added to the project and has the
  net signal 7 scheduled; the builder throws, \<open>triggerAirWiresRebuild\<close> returns, and the
  net signal 7 is still scheduled.
\<close>

theorem triggerAirWiresRebuild_scheduled_counterexample:
  "mIsAddedToProject (boards pendingWorld 1) \<and>
   mScheduledNetSignalsForAirWireRebuild
     (boards (triggerAirWiresRebuild buildFailsEnv 1 pendingWorld) 1) = [7]"
  by (simp add: triggerAirWiresRebuild_def rebuildAirWiresOf_def removeOldAirWires.simps
      pendingWorld_def airWorld_def buildFailsEnv_def quietEnv_def updBoard_def logCall_def
      emptyWorld_def emptyBoard_def nullptr_def)

subsection \<open>Adding the board to the project\<close>

lemma addItemsToBoard_throws:
  assumes "k < length items"
    and "\<forall>j<k. addToBoard_throws env (items ! j) = None"
    and "addToBoard_throws env (items ! k) = Some e"
  shows "addItemsToBoard env items sgl w =
    (Thrown e, sgl @ take k items, w\<lparr>calls := calls w @ map AddToBoard (take (Suc k) items)\<rparr>)"
  using assms
proof (induction items arbitrary: k sgl w)
  case Nil
  then show ?case by simp
next
  case (Cons item rest)
  show ?case
  proof (cases k)
    case 0
    with Cons.prems show ?thesis
      by (simp add: item_addToBoard_def logCall_def)
  next
    case (Suc k')
    from Cons.prems(2) Suc have first: "addToBoard_throws env item = None"
      by auto
    from Cons.prems Suc have
      "k' < length rest" "\<forall>j<k'. addToBoard_throws env (rest ! j) = None"
      "addToBoard_throws env (rest ! k') = Some e"
      by auto
    from Cons.IH [OF this, of "sgl @ [item]" "logCall (AddToBoard item) w"] first Suc
    show ?thesis
      by (simp add: item_addToBoard_def logCall_def)
  qed
qed

lemma runScopeGuards_returns:
  assumes "\<forall>x \<in> set xs. removeFromBoard_throws env x = None"
  shows "runScopeGuards env xs w =
    (Returned (), w\<lparr>calls := calls w @ map RemoveFromBoard xs\<rparr>)"
  using assms
  by (induction xs arbitrary: w) (simp_all add: item_removeFromBoard_def logCall_def)

lemma runScopeGuards_aborts:
  assumes "\<exists>x \<in> set xs. removeFromBoard_throws env x \<noteq> None"
  shows "fst (runScopeGuards env xs w) = Aborted"
  using assms
proof (induction xs arbitrary: w)
  case Nil
  then show ?case by simp
next
  case (Cons x xs)
  show ?case
  proof (cases "removeFromBoard_throws env x")
    case None
    with Cons.prems have "\<exists>y \<in> set xs. removeFromBoard_throws env y \<noteq> None"
      by auto
    from Cons.IH [OF this] None show ?thesis
      by (simp add: item_removeFromBoard_def)
  next
    case (Some e)
    then show ?thesis
      by (simp add: item_removeFromBoard_def)
  qed
qed

lemma boards_runScopeGuards: "boards (snd (runScopeGuards env xs w)) = boards w"
proof (induction xs arbitrary: w)
  case Nil
  show ?case by simp
next
  case (Cons x xs)
  from Cons.IH [of "logCall (RemoveFromBoard x) w"] show ?case
    by (simp add: item_removeFromBoard_def logCall_def split: option.split)
qed

lemma boards_unwindScopeGuards: "boards (snd (unwindScopeGuards env e sgl w)) = boards w"
proof (cases "runScopeGuards env (rev sgl) w")
  case (Pair r w1)
  with boards_runScopeGuards [of env "rev sgl" w] have "boards w1 = boards w"
    by simp
  with Pair show ?thesis
    by (cases r) (simp_all add: unwindScopeGuards_def)
qed

text \<open>
  Claim C1: the board is not added to the project and, of the items \<open>getAllItems\<close>
  returns, the one at index \<open>k\<close> is the first whose attach side effect throws, say \<open>e\<close>.
  When no detach side effect of the \<open>k\<close> items before it throws, \<open>addToProject\<close>
  throws \<open>e\<close> and leaves the world as it was but for the calls: the attach side effects
  of the first \<open>k + 1\<close> items, then the detach side effects of the first \<open>k\<close> items, once
  each, the last attached first. When one of these throws, the clean-up stops the
  process and the call does not return. In both cases the board is not added.
\<close>

theorem addToProject_attach_failure:
  assumes "\<not> mIsAddedToProject (boards w this)"
    and "k < length (getAllItems (boards w this))"
    and "\<forall>j<k. addToBoard_throws env (getAllItems (boards w this) ! j) = None"
    and "addToBoard_throws env (getAllItems (boards w this) ! k) = Some e"
  shows
  "(if \<forall>j<k. removeFromBoard_throws env (getAllItems (boards w this) ! j) = None
    then addToProject env this w =
      (Thrown e,
       w\<lparr>calls := calls w @ map AddToBoard (take (Suc k) (getAllItems (boards w this))) @
                  map RemoveFromBoard (rev (take k (getAllItems (boards w this))))\<rparr>)
    else fst (addToProject env this w) = Aborted) \<and>
   \<not> mIsAddedToProject (boards (snd (addToProject env this w)) this)"
proof -
  let ?items = "getAllItems (boards w this)"
  let ?w1 = "w\<lparr>calls := calls w @ map AddToBoard (take (Suc k) ?items)\<rparr>"
  have loop: "addItemsToBoard env ?items [] w = (Thrown e, take k ?items, ?w1)"
    using addItemsToBoard_throws [OF assms(2,3,4), of "[]" w] by simp
  then have run: "addToProject env this w = unwindScopeGuards env e (take k ?items) ?w1"
    using assms(1) by (simp add: addToProject_def)
  have members: "set (rev (take k ?items)) = (\<lambda>j. ?items ! j) ` {0..<k}"
    using assms(2) nth_image [of k ?items] by simp
  have "boards (snd (addToProject env this w)) = boards w"
    by (simp add: run boards_unwindScopeGuards)
  with assms(1) have flag: "\<not> mIsAddedToProject (boards (snd (addToProject env this w)) this)"
    by simp
  show ?thesis
  proof (cases "\<forall>j<k. removeFromBoard_throws env (?items ! j) = None")
    case True
    with members have "\<forall>x \<in> set (rev (take k ?items)). removeFromBoard_throws env x = None"
      by auto
    from runScopeGuards_returns [OF this, of ?w1] True flag show ?thesis
      by (simp add: run unwindScopeGuards_def)
  next
    case False
    with members have "\<exists>x \<in> set (rev (take k ?items)). removeFromBoard_throws env x \<noteq> None"
      by auto
    from runScopeGuards_aborts [OF this, of ?w1]
    have "fst (unwindScopeGuards env e (take k ?items) ?w1) = Aborted"
      by (cases "runScopeGuards env (rev (take k ?items)) ?w1")
        (simp add: unwindScopeGuards_def)
    with flag show ?thesis
      unfolding if_not_P [OF False] by (simp add: run)
  qed
qed

theorem addToProject_attach_failure_witness:
  "getAllItems (boards fullWorld 1) = [10, 11, 12, 13, 14, 15] \<and>
   addToBoard_throws attachFailsEnv 12 = Some (OtherException 3) \<and>
   addToProject attachFailsEnv 1 fullWorld =
     (Thrown (OtherException 3),
      fullWorld\<lparr>calls := [AddToBoard 10, AddToBoard 11, AddToBoard 12,
                           RemoveFromBoard 11, RemoveFromBoard 10]\<rparr>) \<and>
   \<not> mIsAddedToProject (boards (snd (addToProject attachFailsEnv 1 fullWorld)) 1)"
proof -
  have items: "getAllItems (boards fullWorld 1) = [10, 11, 12, 13, 14, 15]"
    by (simp add: getAllItems_def qmap_values_def fullWorld_def emptyWorld_def emptyBoard_def)
  have log: "calls fullWorld = []"
    by (simp add: fullWorld_def emptyWorld_def)
  have h1: "\<not> mIsAddedToProject (boards fullWorld 1)"
    by (simp add: fullWorld_def emptyWorld_def emptyBoard_def)
  have h2: "2 < length (getAllItems (boards fullWorld 1))"
    unfolding items by simp
  have h3: "\<forall>j<2. addToBoard_throws attachFailsEnv (getAllItems (boards fullWorld 1) ! j) = None"
    unfolding items by (simp add: attachFailsEnv_def quietEnv_def less_Suc_eq numeral_2_eq_2)
  have h4: "addToBoard_throws attachFailsEnv (getAllItems (boards fullWorld 1) ! 2) =
      Some (OtherException 3)"
    unfolding items by (simp add: attachFailsEnv_def)
  have h5: "\<forall>j<2. removeFromBoard_throws attachFailsEnv (getAllItems (boards fullWorld 1) ! j) = None"
    by (simp add: attachFailsEnv_def quietEnv_def)
  have t: "take (Suc 2) [10, 11, 12, 13, 14, 15 :: nat] = [10, 11, 12]"
    "take 2 [10, 11, 12, 13, 14, 15 :: nat] = [10, 11]"
    by (simp_all add: numeral_2_eq_2)
  have h4': "addToBoard_throws attachFailsEnv 12 = Some (OtherException 3)"
    by (simp add: attachFailsEnv_def)
  from addToProject_attach_failure [OF h1 h2 h3 h4]
  have "addToProject attachFailsEnv 1 fullWorld =
      (Thrown (OtherException 3),
       fullWorld\<lparr>calls := calls fullWorld @
          map AddToBoard (take (Suc 2) (getAllItems (boards fullWorld 1))) @
          map RemoveFromBoard (rev (take 2 (getAllItems (boards fullWorld 1))))\<rparr>) \<and>
    \<not> mIsAddedToProject (boards (snd (addToProject attachFailsEnv 1 fullWorld)) 1)"
    unfolding if_P [OF h5] .
  then show ?thesis
    unfolding items t log using h4' h1 by simp
qed

subsection \<open>The ERC messages of unplaced components\<close>

lemma map_of_qhash_take:
  "distinct (map fst m) \<Longrightarrow> map_of (qhash_take k m) = (map_of m)(k := None)"
proof (induction m)
  case Nil
  show ?case by simp
next
  case (Cons kv m)
  show ?case
  proof (cases "fst kv = k")
    case True
    with Cons.prems have "map_of m k = None"
      by (simp add: map_of_eq_None_iff)
    with True show ?thesis
      by (cases kv) auto
  next
    case False
    with Cons show ?thesis
      by (cases kv) auto
  qed
qed

lemma set_qhash_take: "set (qhash_take k m) \<subseteq> set m"
  by (induction m) auto

lemma distinct_qhash_take:
  "distinct (map fst m) \<Longrightarrow> distinct (map fst (qhash_take k m))"
proof (induction m)
  case Nil
  show ?case by simp
next
  case (Cons kv m)
  have "fst ` set (qhash_take k m) \<subseteq> fst ` set m"
    using set_qhash_take [of k m] by blast
  with Cons show ?case by auto
qed

lemma filter_key_distinct:
  "distinct (map fst m) \<Longrightarrow> map_of m k = Some v \<Longrightarrow>
   filter (\<lambda>kv. fst kv = k) m = [(k, v)]"
proof (induction m)
  case Nil
  then show ?case by simp
next
  case (Cons kv m)
  show ?case
  proof (cases "fst kv = k")
    case True
    with Cons.prems have "kv = (k, v)"
      by (cases kv) simp
    moreover from True Cons.prems(1) have "k \<notin> fst ` set m"
      by simp
    then have "\<forall>x \<in> set m. fst x \<noteq> k"
      by force
    then have "filter (\<lambda>kv. fst kv = k) m = []"
      by (simp add: filter_empty_conv)
    ultimately show ?thesis by simp
  next
    case False
    with Cons show ?thesis
      by (cases kv) auto
  qed
qed

text \<open>The first loop changes the messages only.\<close>

lemma updateErcMessages_components_frame:
  "updateErcMessages_components this cs b =
   b\<lparr>mErcMsgListUnplacedComponentInstances :=
       mErcMsgListUnplacedComponentInstances (updateErcMessages_components this cs b)\<rparr>"
proof (induction cs arbitrary: b)
  case Nil
  show ?case by simp
next
  case (Cons c cs)
  have step: "updateErcMessages_components this cs (b\<lparr>mErcMsgListUnplacedComponentInstances := x\<rparr>) =
      b\<lparr>mErcMsgListUnplacedComponentInstances :=
          mErcMsgListUnplacedComponentInstances
            (updateErcMessages_components this cs
               (b\<lparr>mErcMsgListUnplacedComponentInstances := x\<rparr>))\<rparr>" for x
    using Cons.IH [of "b\<lparr>mErcMsgListUnplacedComponentInstances := x\<rparr>"] by simp
  show ?case
    using Cons.IH [of b] step by (simp add: Let_def)
qed

text \<open>
  What the first loop has done for a key \<open>k\<close>, in terms of the messages \<open>msgs0\<close> it
  started from and the set \<open>K\<close> of the identifiers of the components it has visited that
  are not in schematics only.
\<close>

lemma updateErcMessages_components_keys:
  assumes "distinct (map fst (mErcMsgListUnplacedComponentInstances b))"
    and "mDeviceInstances b = devs"
    and "\<forall>k. (k \<in> K \<and> qmap_value devs k nullptr = nullptr \<longrightarrow>
            (\<exists>m. map_of (mErcMsgListUnplacedComponentInstances b) k = Some m \<and>
                 (map_of msgs0 k = Some m \<or> erc_visible m))) \<and>
          (k \<in> K \<and> qmap_value devs k nullptr \<noteq> nullptr \<longrightarrow>
            map_of (mErcMsgListUnplacedComponentInstances b) k = None) \<and>
          (k \<notin> K \<longrightarrow> map_of (mErcMsgListUnplacedComponentInstances b) k = map_of msgs0 k)"
  shows "distinct (map fst (mErcMsgListUnplacedComponentInstances
            (updateErcMessages_components this cs b))) \<and>
    (\<forall>k. (k \<in> K \<union> {ci_uuid c | c. c \<in> set cs \<and> \<not> ci_isSchematicOnly c} \<and>
          qmap_value devs k nullptr = nullptr \<longrightarrow>
            (\<exists>m. map_of (mErcMsgListUnplacedComponentInstances
                     (updateErcMessages_components this cs b)) k = Some m \<and>
                 (map_of msgs0 k = Some m \<or> erc_visible m))) \<and>
         (k \<in> K \<union> {ci_uuid c | c. c \<in> set cs \<and> \<not> ci_isSchematicOnly c} \<and>
          qmap_value devs k nullptr \<noteq> nullptr \<longrightarrow>
            map_of (mErcMsgListUnplacedComponentInstances
                     (updateErcMessages_components this cs b)) k = None) \<and>
         (k \<notin> K \<union> {ci_uuid c | c. c \<in> set cs \<and> \<not> ci_isSchematicOnly c} \<longrightarrow>
            map_of (mErcMsgListUnplacedComponentInstances
                     (updateErcMessages_components this cs b)) k = map_of msgs0 k))"
  using assms
proof (induction cs arbitrary: b K)
  case Nil
  then show ?case by simp
next
  case (Cons c cs)
  let ?msgs = "mErcMsgListUnplacedComponentInstances b"
  let ?k = "ci_uuid c"
  show ?case
  proof (cases "ci_isSchematicOnly c")
    case True
    have sets: "K \<union> {ci_uuid x | x. x \<in> set (c # cs) \<and> \<not> ci_isSchematicOnly x} =
        K \<union> {ci_uuid x | x. x \<in> set cs \<and> \<not> ci_isSchematicOnly x}"
      using True by auto
    have unfold: "updateErcMessages_components this (c # cs) b =
        updateErcMessages_components this cs b"
      using True by simp
    show ?thesis
      unfolding unfold sets by (rule Cons.IH [OF Cons.prems])
  next
    case False
    let ?K = "insert ?k K"
    have sets: "K \<union> {ci_uuid x | x. x \<in> set (c # cs) \<and> \<not> ci_isSchematicOnly x} =
        ?K \<union> {ci_uuid x | x. x \<in> set cs \<and> \<not> ci_isSchematicOnly x}"
      using False by auto
    define msgs1 where "msgs1 =
      (if qmap_value devs ?k nullptr = nullptr \<and> map_of ?msgs ?k = None
       then qhash_insert ?k ((newErcMsg this b c)\<lparr>erc_visible := True\<rparr>) ?msgs
       else if qmap_value devs ?k nullptr \<noteq> nullptr \<and> map_of ?msgs ?k \<noteq> None
       then qhash_take ?k ?msgs else ?msgs)"
    define b1 where "b1 = b\<lparr>mErcMsgListUnplacedComponentInstances := msgs1\<rparr>"
    have unfold: "updateErcMessages_components this (c # cs) b =
        updateErcMessages_components this cs b1"
      using False Cons.prems(2)
      by (auto simp: b1_def msgs1_def Let_def qhash_value_def)
    have m1: "mErcMsgListUnplacedComponentInstances b1 = msgs1"
      and d1: "mDeviceInstances b1 = devs"
      using Cons.prems(2) by (simp_all add: b1_def)
    have notin: "?k \<notin> fst ` set ?msgs" if "map_of ?msgs ?k = None"
      using that by (simp add: map_of_eq_None_iff)
    have dist1: "distinct (map fst msgs1)"
      using Cons.prems(1) notin
      by (auto simp: msgs1_def qhash_insert_def distinct_qhash_take)
    have other: "map_of msgs1 k = map_of ?msgs k" if "k \<noteq> ?k" for k
      using that Cons.prems(1) notin
      by (auto simp: msgs1_def qhash_insert_def map_of_qhash_take)
    have here_null: "\<exists>m. map_of msgs1 ?k = Some m \<and> (map_of msgs0 ?k = Some m \<or> erc_visible m)"
      if null: "qmap_value devs ?k nullptr = nullptr"
    proof (cases "map_of ?msgs ?k")
      case None
      with null notin show ?thesis
        by (auto simp: msgs1_def qhash_insert_def)
    next
      case (Some m)
      have "map_of msgs0 ?k = Some m \<or> erc_visible m"
      proof (cases "?k \<in> K")
        case True
        with Cons.prems(3) null Some show ?thesis by auto
      next
        case False
        with Cons.prems(3) Some show ?thesis by auto
      qed
      with null Some show ?thesis
        by (simp add: msgs1_def)
    qed
    have here_dev: "map_of msgs1 ?k = None" if dev: "qmap_value devs ?k nullptr \<noteq> nullptr"
    proof (cases "map_of ?msgs ?k")
      case None
      with dev show ?thesis by (simp add: msgs1_def)
    next
      case (Some m)
      with dev Cons.prems(1) show ?thesis
        by (simp add: msgs1_def map_of_qhash_take)
    qed
    have inv1: "\<forall>k. (k \<in> ?K \<and> qmap_value devs k nullptr = nullptr \<longrightarrow>
            (\<exists>m. map_of (mErcMsgListUnplacedComponentInstances b1) k = Some m \<and>
                 (map_of msgs0 k = Some m \<or> erc_visible m))) \<and>
          (k \<in> ?K \<and> qmap_value devs k nullptr \<noteq> nullptr \<longrightarrow>
            map_of (mErcMsgListUnplacedComponentInstances b1) k = None) \<and>
          (k \<notin> ?K \<longrightarrow> map_of (mErcMsgListUnplacedComponentInstances b1) k = map_of msgs0 k)"
    proof (intro allI conjI impI)
      fix k
      assume "k \<in> ?K \<and> qmap_value devs k nullptr = nullptr"
      then show "\<exists>m. map_of (mErcMsgListUnplacedComponentInstances b1) k = Some m \<and>
          (map_of msgs0 k = Some m \<or> erc_visible m)"
        using here_null other [of k] Cons.prems(3) by (cases "k = ?k") (auto simp: m1)
    next
      fix k
      assume "k \<in> ?K \<and> qmap_value devs k nullptr \<noteq> nullptr"
      then show "map_of (mErcMsgListUnplacedComponentInstances b1) k = None"
        using here_dev other [of k] Cons.prems(3) by (cases "k = ?k") (auto simp: m1)
    next
      fix k
      assume "k \<notin> ?K"
      then show "map_of (mErcMsgListUnplacedComponentInstances b1) k = map_of msgs0 k"
        using other [of k] Cons.prems(3) by (auto simp: m1)
    qed
    have "distinct (map fst (mErcMsgListUnplacedComponentInstances b1))"
      using dist1 m1 by simp
    then show ?thesis
      unfolding unfold sets by (rule Cons.IH [OF _ d1 inv1])
  qed
qed

text \<open>The second loop, over the keys \<open>ks\<close>.\<close>

lemma updateErcMessages_keys_frame:
  "updateErcMessages_keys cis ks b =
   b\<lparr>mErcMsgListUnplacedComponentInstances :=
       mErcMsgListUnplacedComponentInstances (updateErcMessages_keys cis ks b)\<rparr>"
proof (induction ks arbitrary: b)
  case Nil
  show ?case by simp
next
  case (Cons k ks)
  have step: "updateErcMessages_keys cis ks (b\<lparr>mErcMsgListUnplacedComponentInstances := x\<rparr>) =
      b\<lparr>mErcMsgListUnplacedComponentInstances :=
          mErcMsgListUnplacedComponentInstances
            (updateErcMessages_keys cis ks
               (b\<lparr>mErcMsgListUnplacedComponentInstances := x\<rparr>))\<rparr>" for x
    using Cons.IH [of "b\<lparr>mErcMsgListUnplacedComponentInstances := x\<rparr>"] by simp
  show ?case
    using Cons.IH [of b] step by simp
qed

lemma updateErcMessages_keys_map_of:
  assumes "distinct (map fst (mErcMsgListUnplacedComponentInstances b))"
  shows "distinct (map fst (mErcMsgListUnplacedComponentInstances
            (updateErcMessages_keys cis ks b))) \<and>
    (\<forall>k. map_of (mErcMsgListUnplacedComponentInstances (updateErcMessages_keys cis ks b)) k =
       (if k \<in> set ks \<and> \<not> qmap_contains cis k then None
        else map_of (mErcMsgListUnplacedComponentInstances b) k))"
  using assms
proof (induction ks arbitrary: b)
  case Nil
  then show ?case by simp
next
  case (Cons k' ks)
  show ?case
  proof (cases "qmap_contains cis k'")
    case True
    with Cons.IH [OF Cons.prems] show ?thesis
      by auto
  next
    case False
    let ?b1 = "b\<lparr>mErcMsgListUnplacedComponentInstances :=
      qhash_take k' (mErcMsgListUnplacedComponentInstances b)\<rparr>"
    have "distinct (map fst (mErcMsgListUnplacedComponentInstances ?b1))"
      using Cons.prems by (simp add: distinct_qhash_take)
    from Cons.IH [OF this] False Cons.prems show ?thesis
      by (auto simp: map_of_qhash_take)
  qed
qed


text \<open>
  The messages after \<open>updateErcMessages\<close> on a board that is added to the project, key by
  key: \<open>msgs0\<close> are the messages before, \<open>K\<close> the identifiers of the component instances
  of the circuit that are not in schematics only.
\<close>

lemma updateErcMessages_added_keys:
  assumes added: "mIsAddedToProject (boards w this)"
    and dist: "distinct (map fst (mErcMsgListUnplacedComponentInstances (boards w this)))"
  shows "distinct (map fst (mErcMsgListUnplacedComponentInstances
           (boards (updateErcMessages this w) this)))"
    and "k \<in> {ci_uuid c | c. c \<in> set (qmap_values (circuit_componentInstances w)) \<and>
               \<not> ci_isSchematicOnly c} \<Longrightarrow>
         qmap_contains (circuit_componentInstances w) k \<Longrightarrow>
         qmap_value (mDeviceInstances (boards w this)) k nullptr = nullptr \<Longrightarrow>
         \<exists>m. map_of (mErcMsgListUnplacedComponentInstances
                 (boards (updateErcMessages this w) this)) k = Some m \<and>
             (map_of (mErcMsgListUnplacedComponentInstances (boards w this)) k = Some m \<or>
              erc_visible m)"
    and "k \<in> {ci_uuid c | c. c \<in> set (qmap_values (circuit_componentInstances w)) \<and>
               \<not> ci_isSchematicOnly c} \<Longrightarrow>
         qmap_value (mDeviceInstances (boards w this)) k nullptr \<noteq> nullptr \<Longrightarrow>
         map_of (mErcMsgListUnplacedComponentInstances
                 (boards (updateErcMessages this w) this)) k = None"
    and "k \<notin> {ci_uuid c | c. c \<in> set (qmap_values (circuit_componentInstances w)) \<and>
               \<not> ci_isSchematicOnly c} \<Longrightarrow>
         map_of (mErcMsgListUnplacedComponentInstances
                 (boards (updateErcMessages this w) this)) k =
           (if qmap_contains (circuit_componentInstances w) k
            then map_of (mErcMsgListUnplacedComponentInstances (boards w this)) k else None)"
    and "mDeviceInstances (boards (updateErcMessages this w) this) =
         mDeviceInstances (boards w this)"
proof -
  let ?b = "boards w this"
  let ?cis = "circuit_componentInstances w"
  let ?msgs0 = "mErcMsgListUnplacedComponentInstances ?b"
  let ?K = "{ci_uuid c | c. c \<in> set (qmap_values ?cis) \<and> \<not> ci_isSchematicOnly c}"
  define b1 where "b1 = updateErcMessages_components this (qmap_values ?cis) ?b"
  define b2 where "b2 = updateErcMessages_keys ?cis
    (qhash_keys (mErcMsgListUnplacedComponentInstances b1)) b1"
  let ?msgs1 = "mErcMsgListUnplacedComponentInstances b1"
  let ?msgs2 = "mErcMsgListUnplacedComponentInstances b2"
  have after: "boards (updateErcMessages this w) this = b2"
    using added by (simp add: updateErcMessages_def Let_def updBoard_def b1_def b2_def)
  have start: "\<forall>k. (k \<in> {} \<and> qmap_value (mDeviceInstances ?b) k nullptr = nullptr \<longrightarrow>
            (\<exists>m. map_of ?msgs0 k = Some m \<and> (map_of ?msgs0 k = Some m \<or> erc_visible m))) \<and>
          (k \<in> {} \<and> qmap_value (mDeviceInstances ?b) k nullptr \<noteq> nullptr \<longrightarrow>
            map_of ?msgs0 k = None) \<and>
          (k \<notin> {} \<longrightarrow> map_of ?msgs0 k = map_of ?msgs0 k)"
    by simp
  have empty_un: "{} \<union> ?K = ?K"
    by simp
  note first = updateErcMessages_components_keys
    [where b = ?b and devs = "mDeviceInstances ?b" and K = "{}" and ?msgs0.0 = ?msgs0
      and this = this and cs = "qmap_values ?cis", OF dist refl start,
      unfolded Un_empty_left, folded b1_def]
  have dist1: "distinct (map fst ?msgs1)"
    by (rule first [THEN conjunct1])
  have null1: "\<exists>m. map_of ?msgs1 k = Some m \<and> (map_of ?msgs0 k = Some m \<or> erc_visible m)"
    if "k \<in> ?K" "qmap_value (mDeviceInstances ?b) k nullptr = nullptr" for k
    using first [THEN conjunct2, THEN spec, of k, THEN conjunct1] that by blast
  have dev1: "map_of ?msgs1 k = None"
    if "k \<in> ?K" "qmap_value (mDeviceInstances ?b) k nullptr \<noteq> nullptr" for k
    using first [THEN conjunct2, THEN spec, of k, THEN conjunct2, THEN conjunct1] that
    by blast
  have other1: "map_of ?msgs1 k = map_of ?msgs0 k" if "k \<notin> ?K" for k
    using first [THEN conjunct2, THEN spec, of k, THEN conjunct2, THEN conjunct2] that
    by blast
  note second = updateErcMessages_keys_map_of
    [where b = b1 and cis = ?cis and ks = "qhash_keys ?msgs1", OF dist1, folded b2_def]
  have dist2: "distinct (map fst ?msgs2)"
    by (rule second [THEN conjunct1])
  have map2: "map_of ?msgs2 k =
      (if k \<in> set (qhash_keys ?msgs1) \<and> \<not> qmap_contains ?cis k then None
       else map_of ?msgs1 k)" for k
    by (rule second [THEN conjunct2, THEN spec])
  have keys1: "k \<notin> set (qhash_keys ?msgs1) \<Longrightarrow> map_of ?msgs1 k = None" for k
    by (simp add: qhash_keys_def map_of_eq_None_iff)
  have map2': "map_of ?msgs2 k = (if qmap_contains ?cis k then map_of ?msgs1 k else None)" for k
    using map2 [of k] keys1 [of k] by auto
  show "distinct (map fst (mErcMsgListUnplacedComponentInstances
      (boards (updateErcMessages this w) this)))"
    unfolding after by (rule dist2)
  show "\<exists>m. map_of (mErcMsgListUnplacedComponentInstances
        (boards (updateErcMessages this w) this)) k = Some m \<and>
      (map_of ?msgs0 k = Some m \<or> erc_visible m)"
    if "k \<in> ?K" "qmap_contains ?cis k" "qmap_value (mDeviceInstances ?b) k nullptr = nullptr"
    unfolding after using null1 [OF that(1,3)] that(2) by (simp add: map2')
  show "map_of (mErcMsgListUnplacedComponentInstances
        (boards (updateErcMessages this w) this)) k = None"
    if "k \<in> ?K" "qmap_value (mDeviceInstances ?b) k nullptr \<noteq> nullptr"
    unfolding after using dev1 [OF that] by (simp add: map2')
  show "map_of (mErcMsgListUnplacedComponentInstances
        (boards (updateErcMessages this w) this)) k =
      (if qmap_contains ?cis k then map_of ?msgs0 k else None)"
    if "k \<notin> ?K"
    unfolding after using other1 [OF that] by (simp add: map2')
  have "mDeviceInstances b1 = mDeviceInstances ?b"
    unfolding b1_def
    by (subst updateErcMessages_components_frame) simp
  moreover have "mDeviceInstances b2 = mDeviceInstances b1"
    unfolding b2_def
    by (subst updateErcMessages_keys_frame) simp
  ultimately show "mDeviceInstances (boards (updateErcMessages this w) this) =
      mDeviceInstances ?b"
    unfolding after by simp
qed

lemma circuit_member_key:
  assumes "circuitKeysConsistent w" "c \<in> set (qmap_values (circuit_componentInstances w))"
  shows "qmap_contains (circuit_componentInstances w) (ci_uuid c)"
    and "c' \<in> set (qmap_values (circuit_componentInstances w)) \<Longrightarrow>
         ci_uuid c' = ci_uuid c \<Longrightarrow> c' = c"
proof -
  let ?cis = "circuit_componentInstances w"
  from assms(2) obtain k where k: "(k, c) \<in> set ?cis"
    by (auto simp: qmap_values_def)
  with assms(1) have kc: "ci_uuid c = k"
    by (auto simp: circuitKeysConsistent_def)
  with k show "qmap_contains ?cis (ci_uuid c)"
    by (force simp: qmap_contains_def)
  show "c' = c" if "c' \<in> set (qmap_values ?cis)" "ci_uuid c' = ci_uuid c"
  proof -
    from that(1) obtain k' where k': "(k', c') \<in> set ?cis"
      by (auto simp: qmap_values_def)
    with assms(1) have "ci_uuid c' = k'"
      by (auto simp: circuitKeysConsistent_def)
    with that(2) kc k' have "(k, c') \<in> set ?cis"
      by simp
    moreover from assms(1) have "distinct (map fst ?cis)"
      by (simp add: circuitKeysConsistent_def)
    ultimately show ?thesis
      using k by (meson eq_key_imp_eq_value)
  qed
qed

text \<open>
  Where the messages after \<open>updateErcMessages\<close> come from: a message was registered before,
  or it is the message the first loop creates for a component instance of the circuit.
\<close>

lemma set_qhash_insert: "set (qhash_insert k v m) \<subseteq> insert (k, v) (set m)"
  by (auto simp: qhash_insert_def)

lemma newErcMsg_messages:
  "newErcMsg this (b\<lparr>mErcMsgListUnplacedComponentInstances := x\<rparr>) c = newErcMsg this b c"
  by (simp add: newErcMsg_def)

lemma updateErcMessages_components_entries:
  "set (mErcMsgListUnplacedComponentInstances (updateErcMessages_components this cs b)) \<subseteq>
   set (mErcMsgListUnplacedComponentInstances b) \<union>
   {(ci_uuid c, (newErcMsg this b c)\<lparr>erc_visible := True\<rparr>) | c. c \<in> set cs}"
proof (induction cs arbitrary: b)
  case Nil
  show ?case by simp
next
  case (Cons c cs)
  let ?msgs = "mErcMsgListUnplacedComponentInstances"
  let ?m = "(newErcMsg this b c)\<lparr>erc_visible := True\<rparr>"
  let ?ins = "b\<lparr>mErcMsgListUnplacedComponentInstances := qhash_insert (ci_uuid c) ?m (?msgs b)\<rparr>"
  let ?del = "b\<lparr>mErcMsgListUnplacedComponentInstances := qhash_take (ci_uuid c) (?msgs b)\<rparr>"
  let ?new = "\<lambda>cs. {(ci_uuid c, (newErcMsg this b c)\<lparr>erc_visible := True\<rparr>) | c. c \<in> set cs}"
  have new: "?new (c # cs) = insert (ci_uuid c, ?m) (?new cs)"
    by auto
  have same: "set (?msgs (updateErcMessages_components this cs b)) \<subseteq>
      set (?msgs b) \<union> ?new (c # cs)"
    using Cons.IH [of b] unfolding new by blast
  have "set (?msgs (updateErcMessages_components this cs ?ins)) \<subseteq>
      set (?msgs ?ins) \<union> ?new cs"
    using Cons.IH [of ?ins] by (simp only: newErcMsg_messages)
  moreover have "set (?msgs ?ins) \<subseteq> insert (ci_uuid c, ?m) (set (?msgs b))"
    using set_qhash_insert [of "ci_uuid c" ?m "?msgs b"] by simp
  ultimately have ins: "set (?msgs (updateErcMessages_components this cs ?ins)) \<subseteq>
      set (?msgs b) \<union> ?new (c # cs)"
    unfolding new by blast
  have "set (?msgs (updateErcMessages_components this cs ?del)) \<subseteq>
      set (?msgs ?del) \<union> ?new cs"
    using Cons.IH [of ?del] by (simp only: newErcMsg_messages)
  moreover have "set (?msgs ?del) \<subseteq> set (?msgs b)"
    using set_qhash_take [of "ci_uuid c" "?msgs b"] by simp
  ultimately have del: "set (?msgs (updateErcMessages_components this cs ?del)) \<subseteq>
      set (?msgs b) \<union> ?new (c # cs)"
    unfolding new by blast
  have "updateErcMessages_components this (c # cs) b = updateErcMessages_components this cs b \<or>
      updateErcMessages_components this (c # cs) b = updateErcMessages_components this cs ?ins \<or>
      updateErcMessages_components this (c # cs) b = updateErcMessages_components this cs ?del"
    by (simp add: Let_def)
  then show ?case
  proof (elim disjE)
    assume e: "updateErcMessages_components this (c # cs) b =
      updateErcMessages_components this cs b"
    show ?thesis unfolding e by (rule same)
  next
    assume e: "updateErcMessages_components this (c # cs) b =
      updateErcMessages_components this cs ?ins"
    show ?thesis unfolding e by (rule ins)
  next
    assume e: "updateErcMessages_components this (c # cs) b =
      updateErcMessages_components this cs ?del"
    show ?thesis unfolding e by (rule del)
  qed
qed

lemma updateErcMessages_keys_entries:
  "set (mErcMsgListUnplacedComponentInstances (updateErcMessages_keys cis ks b)) \<subseteq>
   set (mErcMsgListUnplacedComponentInstances b)"
proof (induction ks arbitrary: b)
  case Nil
  show ?case by simp
next
  case (Cons k ks)
  let ?del = "b\<lparr>mErcMsgListUnplacedComponentInstances :=
    qhash_take k (mErcMsgListUnplacedComponentInstances b)\<rparr>"
  have "set (mErcMsgListUnplacedComponentInstances (updateErcMessages_keys cis ks ?del)) \<subseteq>
      set (mErcMsgListUnplacedComponentInstances b)"
    using Cons.IH [of ?del] set_qhash_take [of k "mErcMsgListUnplacedComponentInstances b"]
    by simp
  with Cons.IH [of b] show ?case
    by simp
qed

lemma updateErcMessages_entries:
  assumes "mIsAddedToProject (boards w this)"
  shows "set (mErcMsgListUnplacedComponentInstances (boards (updateErcMessages this w) this)) \<subseteq>
    set (mErcMsgListUnplacedComponentInstances (boards w this)) \<union>
    {(ci_uuid c, (newErcMsg this (boards w this) c)\<lparr>erc_visible := True\<rparr>) | c.
       c \<in> set (qmap_values (circuit_componentInstances w))}"
proof -
  let ?b = "boards w this"
  let ?cis = "circuit_componentInstances w"
  let ?b1 = "updateErcMessages_components this (qmap_values ?cis) ?b"
  let ?b2 = "updateErcMessages_keys ?cis
    (qhash_keys (mErcMsgListUnplacedComponentInstances ?b1)) ?b1"
  have after: "boards (updateErcMessages this w) this = ?b2"
    using assms by (simp add: updateErcMessages_def Let_def updBoard_def)
  have "set (mErcMsgListUnplacedComponentInstances ?b2) \<subseteq>
      set (mErcMsgListUnplacedComponentInstances ?b1)"
    by (rule updateErcMessages_keys_entries)
  with updateErcMessages_components_entries [of this "qmap_values ?cis" ?b]
  show ?thesis
    unfolding after by (rule order_trans [rotated])
qed

lemma ercMsg_entry_cases:
  assumes "(k, m) \<in> set old \<union>
      {(ci_uuid c, (newErcMsg this b c)\<lparr>erc_visible := True\<rparr>) | c. c \<in> set cs}"
  shows "(k, m) \<in> set old \<or>
      (\<exists>c'. c' \<in> set cs \<and> ci_uuid c' = k \<and>
            m = (newErcMsg this b c')\<lparr>erc_visible := True\<rparr>)"
proof -
  from assms have "(k, m) \<in> set old \<or>
      (k, m) \<in> {(ci_uuid c, (newErcMsg this b c)\<lparr>erc_visible := True\<rparr>) | c. c \<in> set cs}"
    by (simp only: Un_iff)
  then show ?thesis
  proof
    assume "(k, m) \<in> set old"
    then show ?thesis ..
  next
    assume "(k, m) \<in>
        {(ci_uuid c, (newErcMsg this b c)\<lparr>erc_visible := True\<rparr>) | c. c \<in> set cs}"
    then obtain c' where
      "(k, m) = (ci_uuid c', (newErcMsg this b c')\<lparr>erc_visible := True\<rparr>)"
      and "c' \<in> set cs"
      unfolding mem_Collect_eq by (elim exE conjE)
    then have "c' \<in> set cs \<and> ci_uuid c' = k \<and>
        m = (newErcMsg this b c')\<lparr>erc_visible := True\<rparr>"
      by (simp only: prod.inject simp_thms)
    then show ?thesis
      by (intro disjI2 exI [of _ c'])
  qed
qed

lemma updateErcMessages_mUuid:
  "mUuid (boards (updateErcMessages this w) this) = mUuid (boards w this)"
proof -
  let ?b = "boards w this"
  let ?cis = "circuit_componentInstances w"
  let ?b1 = "updateErcMessages_components this (qmap_values ?cis) ?b"
  let ?b2 = "updateErcMessages_keys ?cis
    (qhash_keys (mErcMsgListUnplacedComponentInstances ?b1)) ?b1"
  have "mUuid ?b1 = mUuid ?b"
    by (subst updateErcMessages_components_frame) simp
  moreover have "mUuid ?b2 = mUuid ?b1"
    by (subst updateErcMessages_keys_frame) simp
  ultimately have "mUuid ?b2 = mUuid ?b"
    by simp
  then show ?thesis
    by (simp add: updateErcMessages_def Let_def updBoard_def)
qed

text \<open>
  Claim C9: the board is added to the project, the circuit and the messages are
  consistent, the messages are keyed, and \<open>c\<close> is a component instance of the circuit.
  After \<open>updateErcMessages\<close>: when \<open>c\<close> is not in schematics only and the board has no
  device for it, exactly one message is registered under the identifier of \<open>c\<close>; it is
  visible, owned by the board, of the kind \<open>UnplacedComponent\<close>, and its key is that of the
  board and of \<open>c\<close>; when no message was registered for \<open>c\<close> before, its text names \<open>c\<close> and
  the board. When the board has a device for \<open>c\<close>, no message is registered under that
  identifier. The devices and the identifier of the board are as they were.
\<close>

theorem updateErcMessages_unplaced_components:
  assumes "mIsAddedToProject (boards w this)"
    and "circuitKeysConsistent w"
    and "ercMessagesConsistent w (boards w this)"
    and "ercMessagesKeyed this (boards w this)"
    and "c \<in> set (qmap_values (circuit_componentInstances w))"
  shows
  "(\<not> ci_isSchematicOnly c \<and>
    getDeviceInstanceByComponentUuid (boards w this) (ci_uuid c) = nullptr \<longrightarrow>
      (\<exists>m. filter (\<lambda>kv. fst kv = ci_uuid c)
              (mErcMsgListUnplacedComponentInstances
                 (boards (updateErcMessages this w) this)) = [(ci_uuid c, m)] \<and>
           erc_visible m \<and>
           erc_owner m = this \<and>
           erc_ownerKey m = (mUuid (boards w this), ci_uuid c) \<and>
           erc_msgKey m = ''UnplacedComponent'' \<and>
           (map_of (mErcMsgListUnplacedComponentInstances (boards w this)) (ci_uuid c) = None
              \<longrightarrow> erc_description m =
                ''Unplaced Component: '' @ ci_name c @ '' (Board: '' @
                mName (boards w this) @ '')''))) \<and>
   (getDeviceInstanceByComponentUuid (boards w this) (ci_uuid c) \<noteq> nullptr \<longrightarrow>
      filter (\<lambda>kv. fst kv = ci_uuid c)
        (mErcMsgListUnplacedComponentInstances
           (boards (updateErcMessages this w) this)) = []) \<and>
   mDeviceInstances (boards (updateErcMessages this w) this) =
     mDeviceInstances (boards w this) \<and>
   mUuid (boards (updateErcMessages this w) this) = mUuid (boards w this)"
proof (intro conjI impI)
  let ?b = "boards w this"
  let ?cis = "circuit_componentInstances w"
  let ?old = "mErcMsgListUnplacedComponentInstances ?b"
  let ?msgs = "mErcMsgListUnplacedComponentInstances (boards (updateErcMessages this w) this)"
  let ?K = "{ci_uuid c | c. c \<in> set (qmap_values ?cis) \<and> \<not> ci_isSchematicOnly c}"
  let ?k = "ci_uuid c"
  from assms(3) have dist: "distinct (map fst ?old)"
    and visible: "\<forall>kv \<in> set ?old. erc_visible (snd kv)"
    and schematic: "\<forall>kv \<in> set ?old. \<forall>c \<in> set (qmap_values ?cis).
      ci_uuid c = fst kv \<longrightarrow> \<not> ci_isSchematicOnly c"
    by (simp_all add: ercMessagesConsistent_def)
  note keys = updateErcMessages_added_keys [OF assms(1) dist]
  have contained: "qmap_contains ?cis ?k"
    by (rule circuit_member_key(1) [OF assms(2,5)])
  show "mDeviceInstances (boards (updateErcMessages this w) this) = mDeviceInstances ?b"
    by (rule keys(5))
  show "mUuid (boards (updateErcMessages this w) this) = mUuid ?b"
    by (rule updateErcMessages_mUuid)
  {
    assume a: "\<not> ci_isSchematicOnly c \<and> getDeviceInstanceByComponentUuid ?b ?k = nullptr"
    with assms(5) have "?k \<in> ?K"
      by auto
    moreover from a have "qmap_value (mDeviceInstances ?b) ?k nullptr = nullptr"
      by (simp add: getDeviceInstanceByComponentUuid_def)
    ultimately obtain m where m: "map_of ?msgs ?k = Some m"
      using keys(2) [OF _ contained] by blast
    then have "(?k, m) \<in> set ?msgs"
      by (rule map_of_SomeD)
    with updateErcMessages_entries [OF assms(1)]
    have "(?k, m) \<in> set ?old \<union>
        {(ci_uuid c, (newErcMsg this ?b c)\<lparr>erc_visible := True\<rparr>) | c.
           c \<in> set (qmap_values ?cis)}"
      by (rule subsetD)
    then have "(?k, m) \<in> set ?old \<or>
        (\<exists>c'. c' \<in> set (qmap_values ?cis) \<and> ci_uuid c' = ?k \<and>
              m = (newErcMsg this ?b c')\<lparr>erc_visible := True\<rparr>)"
      by (rule ercMsg_entry_cases)
    then have fields: "erc_visible m \<and> erc_owner m = this \<and>
        erc_ownerKey m = (mUuid ?b, ?k) \<and> erc_msgKey m = ''UnplacedComponent'' \<and>
        (map_of ?old ?k = None \<longrightarrow> erc_description m =
           ''Unplaced Component: '' @ ci_name c @ '' (Board: '' @ mName ?b @ '')'')"
    proof
      assume old: "(?k, m) \<in> set ?old"
      with visible have "erc_visible m"
        by auto
      moreover from old assms(4) have "erc_owner m = this \<and>
          erc_ownerKey m = (mUuid ?b, ?k) \<and> erc_msgKey m = ''UnplacedComponent''"
        unfolding ercMessagesKeyed_def by auto
      moreover from old dist have "map_of ?old ?k = Some m"
        by simp
      ultimately show ?thesis
        by simp
    next
      assume "\<exists>c'. c' \<in> set (qmap_values ?cis) \<and> ci_uuid c' = ?k \<and>
          m = (newErcMsg this ?b c')\<lparr>erc_visible := True\<rparr>"
      then obtain c' where c': "c' \<in> set (qmap_values ?cis)" "ci_uuid c' = ?k"
        and new: "m = (newErcMsg this ?b c')\<lparr>erc_visible := True\<rparr>"
        by blast
      from circuit_member_key(2) [OF assms(2,5) c'] have "c' = c" .
      with new show ?thesis
        by (simp add: newErcMsg_def)
    qed
    from filter_key_distinct [OF keys(1) m] fields
    have "filter (\<lambda>kv. fst kv = ?k) ?msgs = [(?k, m)] \<and>
        erc_visible m \<and> erc_owner m = this \<and>
        erc_ownerKey m = (mUuid ?b, ?k) \<and> erc_msgKey m = ''UnplacedComponent'' \<and>
        (map_of ?old ?k = None \<longrightarrow> erc_description m =
           ''Unplaced Component: '' @ ci_name c @ '' (Board: '' @ mName ?b @ '')'')"
      by (rule conjI)
    then show "\<exists>m. filter (\<lambda>kv. fst kv = ?k) ?msgs = [(?k, m)] \<and>
        erc_visible m \<and> erc_owner m = this \<and>
        erc_ownerKey m = (mUuid ?b, ?k) \<and> erc_msgKey m = ''UnplacedComponent'' \<and>
        (map_of ?old ?k = None \<longrightarrow> erc_description m =
           ''Unplaced Component: '' @ ci_name c @ '' (Board: '' @ mName ?b @ '')'')"
      by (intro exI [of _ m])
  }
  {
    assume a: "getDeviceInstanceByComponentUuid ?b ?k \<noteq> nullptr"
    then have dev: "qmap_value (mDeviceInstances ?b) ?k nullptr \<noteq> nullptr"
      by (simp add: getDeviceInstanceByComponentUuid_def)
    have "map_of ?msgs ?k = None"
    proof (cases "ci_isSchematicOnly c")
      case False
      with assms(5) have "?k \<in> ?K"
        by auto
      then show ?thesis
        using dev by (rule keys(3))
    next
      case True
      have "?k \<notin> ?K"
      proof
        assume "?k \<in> ?K"
        then obtain c' where "c' \<in> set (qmap_values ?cis)" "\<not> ci_isSchematicOnly c'"
          "ci_uuid c' = ?k"
          by auto
        with circuit_member_key(2) [OF assms(2,5)] True show False
          by blast
      qed
      from keys(4) [OF this] contained have "map_of ?msgs ?k = map_of ?old ?k"
        by simp
      moreover have "map_of ?old ?k = None"
      proof (rule ccontr)
        assume "map_of ?old ?k \<noteq> None"
        then obtain m where "(?k, m) \<in> set ?old"
          by (auto dest: map_of_SomeD)
        with schematic assms(5) True show False
          by force
      qed
      ultimately show ?thesis by simp
    qed
    then have "?k \<notin> fst ` set ?msgs"
      by (simp add: map_of_eq_None_iff)
    then have "\<forall>kv \<in> set ?msgs. fst kv \<noteq> ?k"
      by force
    then show "filter (\<lambda>kv. fst kv = ?k) ?msgs = []"
      by (simp add: filter_empty_conv)
  }
qed

text \<open>
  The consistency of the messages holds for a board without messages and is kept by
  \<open>updateErcMessages\<close>, whether the board is added to the project or not.
\<close>

lemma ercMessagesConsistent_empty:
  "mErcMsgListUnplacedComponentInstances b = [] \<Longrightarrow> ercMessagesConsistent w b"
  by (simp add: ercMessagesConsistent_def)

lemma updateErcMessages_consistent:
  assumes "circuitKeysConsistent w" and "ercMessagesConsistent w (boards w this)"
  shows "ercMessagesConsistent (updateErcMessages this w)
    (boards (updateErcMessages this w) this)"
proof (cases "mIsAddedToProject (boards w this)")
  case False
  then show ?thesis
    by (simp add: updateErcMessages_def updBoard_def ercMessagesConsistent_def)
next
  case True
  let ?b = "boards w this"
  let ?cis = "circuit_componentInstances w"
  let ?old = "mErcMsgListUnplacedComponentInstances ?b"
  let ?w' = "updateErcMessages this w"
  let ?msgs = "mErcMsgListUnplacedComponentInstances (boards ?w' this)"
  let ?K = "{ci_uuid c | c. c \<in> set (qmap_values ?cis) \<and> \<not> ci_isSchematicOnly c}"
  from assms(2) have dist: "distinct (map fst ?old)"
    and visible: "\<forall>kv \<in> set ?old. erc_visible (snd kv)"
    and schematic: "\<forall>kv \<in> set ?old. \<forall>c \<in> set (qmap_values ?cis).
      ci_uuid c = fst kv \<longrightarrow> \<not> ci_isSchematicOnly c"
    by (simp_all add: ercMessagesConsistent_def)
  note keys = updateErcMessages_added_keys [OF True dist]
  have circuit: "circuit_componentInstances ?w' = ?cis"
    by (simp add: updateErcMessages_def Let_def updBoard_def)
  have entry: "(map_of ?old k = Some m \<or> erc_visible m) \<and>
      (k \<in> ?K \<or> map_of ?old k = Some m)"
    if km: "(k, m) \<in> set ?msgs" for k m
  proof -
    from km keys(1) have m: "map_of ?msgs k = Some m"
      by simp
    show ?thesis
    proof (cases "k \<in> ?K")
      case False
      from keys(4) [OF this] m show ?thesis
        by (simp split: if_splits)
    next
      case inK: True
      then obtain c where c: "c \<in> set (qmap_values ?cis)" "ci_uuid c = k"
        by auto
      from circuit_member_key(1) [OF assms(1) c(1)] c(2)
      have contained: "qmap_contains ?cis k" by simp
      show ?thesis
      proof (cases "qmap_value (mDeviceInstances ?b) k nullptr = nullptr")
        case True
        from keys(2) [OF inK contained True] m inK show ?thesis
          by auto
      next
        case False
        from keys(3) [OF inK False] m show ?thesis by simp
      qed
    qed
  qed
  have "erc_visible m" if "(k, m) \<in> set ?msgs" for k m
  proof (cases "map_of ?old k = Some m")
    case True
    then have "(k, m) \<in> set ?old"
      by (rule map_of_SomeD)
    with visible show ?thesis by auto
  next
    case False
    with entry [OF that] show ?thesis by simp
  qed
  moreover have "\<not> ci_isSchematicOnly c"
    if "(k, m) \<in> set ?msgs" "c \<in> set (qmap_values ?cis)" "ci_uuid c = k" for k m c
  proof (cases "k \<in> ?K")
    case True
    then obtain c' where "c' \<in> set (qmap_values ?cis)" "\<not> ci_isSchematicOnly c'"
      "ci_uuid c' = k"
      by auto
    with circuit_member_key(2) [OF assms(1) that(2)] that(3) show ?thesis
      by blast
  next
    case False
    with entry [OF that(1)] have "(k, m) \<in> set ?old"
      by (auto dest: map_of_SomeD)
    with schematic that(2,3) show ?thesis
      by force
  qed
  ultimately show ?thesis
    unfolding ercMessagesConsistent_def circuit using keys(1) by fastforce
qed

text \<open>
  That the messages are keyed holds for a board without messages and is kept by
  \<open>updateErcMessages\<close>, whether the board is added to the project or not.
\<close>

lemma ercMessagesKeyed_empty:
  "mErcMsgListUnplacedComponentInstances b = [] \<Longrightarrow> ercMessagesKeyed this b"
  by (simp add: ercMessagesKeyed_def)

lemma updateErcMessages_keyed:
  assumes "ercMessagesKeyed this (boards w this)"
  shows "ercMessagesKeyed this (boards (updateErcMessages this w) this)"
proof (cases "mIsAddedToProject (boards w this)")
  case False
  then show ?thesis
    by (simp add: updateErcMessages_def updBoard_def ercMessagesKeyed_def)
next
  case True
  let ?b = "boards w this"
  let ?old = "mErcMsgListUnplacedComponentInstances ?b"
  let ?msgs = "mErcMsgListUnplacedComponentInstances (boards (updateErcMessages this w) this)"
  have "erc_owner m = this \<and> erc_ownerKey m = (mUuid ?b, k) \<and>
      erc_msgKey m = ''UnplacedComponent''"
    if "(k, m) \<in> set ?msgs" for k m
  proof -
    from updateErcMessages_entries [OF True] that
    have "(k, m) \<in> set ?old \<union>
        {(ci_uuid c, (newErcMsg this ?b c)\<lparr>erc_visible := True\<rparr>) | c.
           c \<in> set (qmap_values (circuit_componentInstances w))}"
      by (rule subsetD)
    then have "(k, m) \<in> set ?old \<or>
        (\<exists>c'. c' \<in> set (qmap_values (circuit_componentInstances w)) \<and> ci_uuid c' = k \<and>
              m = (newErcMsg this ?b c')\<lparr>erc_visible := True\<rparr>)"
      by (rule ercMsg_entry_cases)
    then show ?thesis
    proof
      assume "(k, m) \<in> set ?old"
      with assms show ?thesis
        unfolding ercMessagesKeyed_def by auto
    next
      assume "\<exists>c'. c' \<in> set (qmap_values (circuit_componentInstances w)) \<and> ci_uuid c' = k \<and>
          m = (newErcMsg this ?b c')\<lparr>erc_visible := True\<rparr>"
      then obtain c' where "ci_uuid c' = k"
        and "m = (newErcMsg this ?b c')\<lparr>erc_visible := True\<rparr>"
        by blast
      then show ?thesis
        by (simp add: newErcMsg_def)
    qed
  qed
  then show ?thesis
    unfolding ercMessagesKeyed_def updateErcMessages_mUuid by auto
qed

text \<open>
  On \<open>ercWorld\<close>: the component instance 4 has no device and gets its message; the
  component instance 5 has the device 10, and its message is removed.
\<close>

theorem updateErcMessages_unplaced_components_witness:
  "mIsAddedToProject (boards ercWorld 1) \<and> circuitKeysConsistent ercWorld \<and>
   ercMessagesConsistent ercWorld (boards ercWorld 1) \<and>
   ercMessagesKeyed 1 (boards ercWorld 1) \<and>
   getDeviceInstanceByComponentUuid (boards ercWorld 1) 4 = nullptr \<and>
   getDeviceInstanceByComponentUuid (boards ercWorld 1) 5 = 10 \<and>
   (\<exists>m. filter (\<lambda>kv. fst kv = 4)
           (mErcMsgListUnplacedComponentInstances
              (boards (updateErcMessages 1 ercWorld) 1)) = [(4, m)] \<and>
        erc_visible m \<and> erc_owner m = 1 \<and> erc_ownerKey m = (1, 4) \<and>
        erc_msgKey m = ''UnplacedComponent'' \<and>
        erc_description m = ''Unplaced Component: R1 (Board: default)'') \<and>
   filter (\<lambda>kv. fst kv = 5)
     (mErcMsgListUnplacedComponentInstances (boards (updateErcMessages 1 ercWorld) 1)) = []"
proof -
  let ?c4 = "\<lparr>ci_uuid = 4, ci_name = ''R1'', ci_isSchematicOnly = False\<rparr>"
  let ?c5 = "\<lparr>ci_uuid = 5, ci_name = ''R2'', ci_isSchematicOnly = False\<rparr>"
  have added: "mIsAddedToProject (boards ercWorld 1)"
    by (simp add: ercWorld_def emptyWorld_def emptyBoard_def)
  have circuit: "circuitKeysConsistent ercWorld"
    by (simp add: circuitKeysConsistent_def ercWorld_def emptyWorld_def)
  have msgs: "ercMessagesConsistent ercWorld (boards ercWorld 1)"
    by (simp add: ercMessagesConsistent_def ercWorld_def emptyWorld_def emptyBoard_def
        qmap_values_def)
  have keyed: "ercMessagesKeyed 1 (boards ercWorld 1)"
    by (simp add: ercMessagesKeyed_def ercWorld_def emptyWorld_def emptyBoard_def)
  have c4: "?c4 \<in> set (qmap_values (circuit_componentInstances ercWorld))"
    and c5: "?c5 \<in> set (qmap_values (circuit_componentInstances ercWorld))"
    by (simp_all add: qmap_values_def ercWorld_def emptyWorld_def)
  have d4: "getDeviceInstanceByComponentUuid (boards ercWorld 1) 4 = nullptr"
    and d5: "getDeviceInstanceByComponentUuid (boards ercWorld 1) 5 = 10"
    by (simp_all add: getDeviceInstanceByComponentUuid_def qmap_value_def ercWorld_def
        emptyWorld_def emptyBoard_def)
  have old4: "map_of (mErcMsgListUnplacedComponentInstances (boards ercWorld 1)) 4 = None"
    and uuid: "mUuid (boards ercWorld 1) = 1"
    and name: "mName (boards ercWorld 1) = ''default''"
    by (simp_all add: ercWorld_def emptyWorld_def emptyBoard_def)
  from updateErcMessages_unplaced_components [OF added circuit msgs keyed c4]
    updateErcMessages_unplaced_components [OF added circuit msgs keyed c5]
    added circuit msgs keyed d4 d5 old4 uuid name
  show ?thesis
    by (simp add: nullptr_def)
qed

subsection \<open>Rebuilding the planes\<close>

lemma set_insert_by: "set (insert_by before x ys) = insert x (set ys)"
  by (induction ys) auto

lemma count_list_insert_by:
  "count_list (insert_by before x ys) z = count_list (x # ys) z"
  by (induction ys) auto

lemma count_list_std_sort: "count_list (std_sort before xs) z = count_list xs z"
  by (induction xs) (simp_all add: std_sort_def count_list_insert_by)

lemma set_std_sort: "set (std_sort before xs) = set xs"
  by (induction xs) (simp_all add: std_sort_def set_insert_by)

lemma distinct_insert_by:
  "distinct ys \<Longrightarrow> x \<notin> set ys \<Longrightarrow> distinct (insert_by before x ys)"
  by (induction ys) (auto simp: set_insert_by)

lemma distinct_std_sort: "distinct xs \<Longrightarrow> distinct (std_sort before xs)"
proof (induction xs)
  case Nil
  show ?case by (simp add: std_sort_def)
next
  case (Cons x xs)
  then have "distinct (std_sort before xs)" "x \<notin> set (std_sort before xs)"
    by (simp_all add: set_std_sort)
  then have "distinct (insert_by before x (std_sort before xs))"
    by (rule distinct_insert_by)
  then show ?case by (simp add: std_sort_def)
qed

text \<open>
  The sort puts the elements in the order \<open>R\<close> when \<open>R\<close> is transitive, holds where
  \<open>before\<close> does, and holds the other way round where \<open>before\<close> does not.
\<close>

lemma sorted_wrt_insert_by:
  assumes trans: "\<And>x y z. R x y \<Longrightarrow> R y z \<Longrightarrow> R x z"
    and yes: "\<And>x y. before x y \<Longrightarrow> R x y"
    and no: "\<And>x y. \<not> before x y \<Longrightarrow> R y x"
  shows "sorted_wrt R ys \<Longrightarrow> sorted_wrt R (insert_by before x ys)"
proof (induction ys)
  case Nil
  show ?case by simp
next
  case (Cons y ys)
  show ?case
  proof (cases "before x y")
    case True
    then have "R x y" by (rule yes)
    with Cons.prems have "\<forall>z \<in> set (y # ys). R x z"
      by (auto intro: trans)
    with True Cons.prems show ?thesis by simp
  next
    case False
    then have "R y x" by (rule no)
    with False Cons show ?thesis
      by (auto simp: set_insert_by)
  qed
qed

lemma sorted_wrt_std_sort:
  assumes "\<And>x y z. R x y \<Longrightarrow> R y z \<Longrightarrow> R x z"
    and "\<And>x y. before x y \<Longrightarrow> R x y"
    and "\<And>x y. \<not> before x y \<Longrightarrow> R y x"
  shows "sorted_wrt R (std_sort before xs)"
proof (induction xs)
  case Nil
  show ?case by (simp add: std_sort_def)
next
  case (Cons x xs)
  from sorted_wrt_insert_by [where R = R and before = before and x = x, OF assms Cons.IH]
  show ?case
    by (simp add: std_sort_def)
qed

lemma rebuildPlanes_append:
  "rebuildPlanes env (xs @ ys) w = rebuildPlanes env ys (rebuildPlanes env xs w)"
  by (induction xs arbitrary: w) simp_all

lemma rebuildPlanes_frame:
  "calls (rebuildPlanes env ps w) = calls w @ map BuildFragments ps \<and>
   boards (rebuildPlanes env ps w) = boards w \<and>
   (\<forall>p. p \<notin> set ps \<longrightarrow> planes (rebuildPlanes env ps w) p = planes w p) \<and>
   (\<forall>p. planes (rebuildPlanes env ps w) p =
      (planes w p)\<lparr>pl_fragments := pl_fragments (planes (rebuildPlanes env ps w) p)\<rparr>)"
proof (induction ps arbitrary: w)
  case Nil
  show ?case by simp
next
  case (Cons plane rest)
  let ?w1 = "rebuildPlane env plane w"
  have w1: "calls ?w1 = calls w @ [BuildFragments plane]" "boards ?w1 = boards w"
    "\<And>p. p \<noteq> plane \<Longrightarrow> planes ?w1 p = planes w p"
    "\<And>p. planes ?w1 p = (planes w p)\<lparr>pl_fragments := pl_fragments (planes ?w1 p)\<rparr>"
    by (simp_all add: rebuildPlane_def setCalculatedFragments_def logCall_def)
  from Cons.IH [of ?w1] have ih:
    "calls (rebuildPlanes env rest ?w1) = calls ?w1 @ map BuildFragments rest"
    "boards (rebuildPlanes env rest ?w1) = boards ?w1"
    "\<And>p. p \<notin> set rest \<Longrightarrow> planes (rebuildPlanes env rest ?w1) p = planes ?w1 p"
    "\<And>p. planes (rebuildPlanes env rest ?w1) p =
      (planes ?w1 p)\<lparr>pl_fragments := pl_fragments (planes (rebuildPlanes env rest ?w1) p)\<rparr>"
    by blast+
  have "planes (rebuildPlanes env rest ?w1) p =
      (planes w p)\<lparr>pl_fragments := pl_fragments (planes (rebuildPlanes env rest ?w1) p)\<rparr>" for p
    by (subst ih(4), subst w1(4)) simp
  with w1 ih(1,2,3) show ?case
    by simp
qed

lemma rebuildPlanes_fragments:
  assumes "distinct ps" and "i < length ps"
  shows "pl_fragments (planes (rebuildPlanes env ps w) (ps ! i)) =
    buildFragments env (rebuildPlanes env (take i ps) w) (ps ! i)"
proof -
  let ?w1 = "rebuildPlanes env (take i ps) w"
  let ?w2 = "rebuildPlane env (ps ! i) ?w1"
  have split: "ps = take i ps @ (ps ! i) # drop (Suc i) ps"
    using assms(2) by (rule id_take_nth_drop)
  have "rebuildPlanes env (take i ps @ (ps ! i) # drop (Suc i) ps) w =
      rebuildPlanes env (drop (Suc i) ps) ?w2"
    by (simp add: rebuildPlanes_append)
  with split have run: "rebuildPlanes env ps w = rebuildPlanes env (drop (Suc i) ps) ?w2"
    by simp
  from assms split have "ps ! i \<notin> set (drop (Suc i) ps)"
    by (metis distinct.simps(2) distinct_append)
  with rebuildPlanes_frame [of env "drop (Suc i) ps" ?w2]
  have "planes (rebuildPlanes env (drop (Suc i) ps) ?w2) (ps ! i) = planes ?w2 (ps ! i)"
    by blast
  then show ?thesis
    by (simp add: run rebuildPlane_def setCalculatedFragments_def logCall_def)
qed

text \<open>
  Claim C4: \<open>rebuildAllPlanes\<close> calls the builder once for every plane of the board, in
  the order of \<open>sortedPlanes\<close>: a rearrangement of \<open>mPlanes\<close> in which no plane comes
  before one of higher priority. The boards are left as they are, and a plane is changed
  in its fragments only; for planes that are all different, the fragments of a plane are
  what the builder returned when it was called for that plane, in the world left by
  the rebuilds before it.
\<close>

theorem rebuildAllPlanes_by_priority:
  assumes "distinct (mPlanes (boards w this))"
  shows
  "calls (rebuildAllPlanes env tieLess this w) =
     calls w @ map BuildFragments (sortedPlanes tieLess this w) \<and>
   (\<forall>p. count_list (sortedPlanes tieLess this w) p = count_list (mPlanes (boards w this)) p) \<and>
   sorted_wrt (\<lambda>p q. pl_priority (planes w p) \<ge> pl_priority (planes w q))
     (sortedPlanes tieLess this w) \<and>
   boards (rebuildAllPlanes env tieLess this w) = boards w \<and>
   (\<forall>p. planes (rebuildAllPlanes env tieLess this w) p =
      (planes w p)\<lparr>pl_fragments :=
         pl_fragments (planes (rebuildAllPlanes env tieLess this w) p)\<rparr>) \<and>
   (\<forall>i < length (sortedPlanes tieLess this w).
      pl_fragments (planes (rebuildAllPlanes env tieLess this w)
                      (sortedPlanes tieLess this w ! i)) =
        buildFragments env
          (rebuildPlanes env (take i (sortedPlanes tieLess this w)) w)
          (sortedPlanes tieLess this w ! i))"
proof -
  let ?ps = "sortedPlanes tieLess this w"
  let ?before = "\<lambda>p1 p2. \<not> plane_less tieLess w p1 p2"
  let ?R = "\<lambda>p q. pl_priority (planes w p) \<ge> pl_priority (planes w q)"
  have "sorted_wrt ?R (std_sort ?before (mPlanes (boards w this)))"
  proof (rule sorted_wrt_std_sort)
    show "?R x z" if "?R x y" "?R y z" for x y z
      using that by simp
    show "?R x y" if "?before x y" for x y
      using that by (auto simp: plane_less_def)
    show "?R y x" if "\<not> ?before x y" for x y
      using that by (auto simp: plane_less_def)
  qed
  then have sorted: "sorted_wrt ?R ?ps"
    by (simp add: sortedPlanes_def)
  have count: "\<forall>p. count_list ?ps p = count_list (mPlanes (boards w this)) p"
    by (simp add: sortedPlanes_def count_list_std_sort)
  have dist: "distinct ?ps"
    using assms by (simp add: sortedPlanes_def distinct_std_sort)
  have frags: "\<forall>i < length ?ps.
      pl_fragments (planes (rebuildPlanes env ?ps w) (?ps ! i)) =
        buildFragments env (rebuildPlanes env (take i ?ps) w) (?ps ! i)"
    using rebuildPlanes_fragments [OF dist] by blast
  from rebuildPlanes_frame [of env ?ps w] sorted count frags show ?thesis
    unfolding rebuildAllPlanes_def by blast
qed

theorem rebuildAllPlanes_by_priority_witness:
  "map (\<lambda>p. pl_priority (planes planesWorld p)) (mPlanes (boards planesWorld 1)) = [5, 1, 3] \<and>
   sortedPlanes (\<lambda>p q. p < q) 1 planesWorld = [30, 32, 31] \<and>
   map (\<lambda>p. pl_priority (planes planesWorld p)) (sortedPlanes (\<lambda>p q. p < q) 1 planesWorld) =
     [5, 3, 1] \<and>
   calls (rebuildAllPlanes planesEnv (\<lambda>p q. p < q) 1 planesWorld) =
     [BuildFragments 30, BuildFragments 32, BuildFragments 31] \<and>
   map (\<lambda>p. pl_fragments (planes (rebuildAllPlanes planesEnv (\<lambda>p q. p < q) 1 planesWorld) p))
     [30, 32, 31] = [[[(5, 0)]], [[(3, 1)]], [[(1, 2)]]]"
proof -
  have planes: "mPlanes (boards planesWorld 1) = [30, 31, 32]"
    by (simp add: planesWorld_def emptyWorld_def)
  have prio: "pl_priority (planes planesWorld 30) = 5"
    "pl_priority (planes planesWorld 31) = 1" "pl_priority (planes planesWorld 32) = 3"
    by (simp_all add: planesWorld_def emptyWorld_def noPlane_def)
  have dist: "distinct (mPlanes (boards planesWorld 1))"
    unfolding planes by simp
  have sorted: "sortedPlanes (\<lambda>p q. p < q) 1 planesWorld = [30, 32, 31]"
    unfolding sortedPlanes_def planes by (simp add: std_sort_def plane_less_def prio)
  have log: "calls planesWorld = []"
    by (simp add: planesWorld_def emptyWorld_def)
  have frags: "map (\<lambda>p. pl_fragments
      (planes (rebuildAllPlanes planesEnv (\<lambda>p q. p < q) 1 planesWorld) p)) [30, 32, 31] =
      [[[(5, 0)]], [[(3, 1)]], [[(1, 2)]]]"
    unfolding rebuildAllPlanes_def sorted
    by (simp add: rebuildPlane_def setCalculatedFragments_def logCall_def planesEnv_def
        planesWorld_def emptyWorld_def noPlane_def)
  from rebuildAllPlanes_by_priority [OF dist, of planesEnv "\<lambda>p q. p < q"]
  have "calls (rebuildAllPlanes planesEnv (\<lambda>p q. p < q) 1 planesWorld) =
      calls planesWorld @ map BuildFragments (sortedPlanes (\<lambda>p q. p < q) 1 planesWorld)"
    by (rule conjunct1)
  then show ?thesis
    unfolding sorted planes log using prio frags by simp
qed

subsection \<open>The derived data and the editing operations\<close>











































end
